theory Spec2Isabelle
  imports Complex_Main "HOL-Library.Log_Nat"
begin

section \<open>JavaScript strings\<close>

text \<open>
  A JavaScript string is modelled by the bytes of its UTF-8 encoding. The router only
  compares strings with ASCII literals, cuts them at the space character and strips white
  space from their ends, so the encoding is visible in one place: the code points that
  \<open>String.prototype.trim\<close> and \<open>Number\<close> strip (WhiteSpace and LineTerminator of
  ECMA-262) are listed below by their UTF-8 byte sequences.
\<close>

definition white_space :: "string list" where
  "white_space =
    [[CHR 0x09], [CHR 0x0A], [CHR 0x0B], [CHR 0x0C], [CHR 0x0D], [CHR 0x20],
     [CHR 0xC2, CHR 0xA0],
     [CHR 0xE1, CHR 0x9A, CHR 0x80],
     [CHR 0xE2, CHR 0x80, CHR 0x80], [CHR 0xE2, CHR 0x80, CHR 0x81],
     [CHR 0xE2, CHR 0x80, CHR 0x82], [CHR 0xE2, CHR 0x80, CHR 0x83],
     [CHR 0xE2, CHR 0x80, CHR 0x84], [CHR 0xE2, CHR 0x80, CHR 0x85],
     [CHR 0xE2, CHR 0x80, CHR 0x86], [CHR 0xE2, CHR 0x80, CHR 0x87],
     [CHR 0xE2, CHR 0x80, CHR 0x88], [CHR 0xE2, CHR 0x80, CHR 0x89],
     [CHR 0xE2, CHR 0x80, CHR 0x8A],
     [CHR 0xE2, CHR 0x80, CHR 0xA8], [CHR 0xE2, CHR 0x80, CHR 0xA9],
     [CHR 0xE2, CHR 0x80, CHR 0xAF],
     [CHR 0xE2, CHR 0x81, CHR 0x9F],
     [CHR 0xE3, CHR 0x80, CHR 0x80],
     [CHR 0xEF, CHR 0xBB, CHR 0xBF]]"

text \<open>The length of the first sequence of \<open>ws\<close> that \<open>s\<close> starts with, 0 when there is none.\<close>

definition match_len :: "string list \<Rightarrow> string \<Rightarrow> nat" where
  "match_len ws s =
     (case List.find (\<lambda>w. take (length w) s = w) ws of
        None \<Rightarrow> 0
      | Some w \<Rightarrow> length w)"

function strip :: "string list \<Rightarrow> string \<Rightarrow> string" where
  "strip ws s = (if match_len ws s = 0 then s else strip ws (drop (match_len ws s) s))"
  by pat_completeness auto

termination
proof (relation "measure (\<lambda>(ws, s). length s)")
  show "wf (measure (\<lambda>(ws, s). length s))" by simp
next
  fix ws :: "string list" and s :: string
  assume ne: "match_len ws s \<noteq> 0"
  have "match_len ws s \<le> length s"
  proof (cases "List.find (\<lambda>w. take (length w) s = w) ws")
    case None
    then show ?thesis by (simp add: match_len_def)
  next
    case (Some w)
    then have "take (length w) s = w" by (auto simp: find_Some_iff)
    then have "length w = min (length s) (length w)" by (metis length_take)
    then have "length w \<le> length s" by simp
    with Some show ?thesis by (simp add: match_len_def)
  qed
  with ne show "((ws, drop (match_len ws s) s), (ws, s)) \<in> measure (\<lambda>(ws, s). length s)"
    by simp
qed

declare strip.simps [simp del]

text \<open>\<open>s.trim()\<close>: white space is stripped from the front, then from the back.\<close>

definition trim :: "string \<Rightarrow> string" where
  "trim s = rev (strip (map rev white_space) (rev (strip white_space s)))"

text \<open>
  \<open>s.split(c)\<close> for a one-character separator: every occurrence of \<open>c\<close> ends a piece, so
  two adjacent separators enclose an empty piece and the empty string gives \<open>[""]\<close>.
\<close>

fun split :: "char \<Rightarrow> string \<Rightarrow> string list" where
  "split c [] = [[]]"
| "split c (x # xs) =
     (if x = c then [] # split c xs
      else (case split c xs of [] \<Rightarrow> [[x]] | y # ys \<Rightarrow> (x # y) # ys))"

text \<open>\<open>pieces.join(sep)\<close>.\<close>

fun join :: "string \<Rightarrow> string list \<Rightarrow> string" where
  "join sep [] = []"
| "join sep [x] = x"
| "join sep (x # y # ys) = x @ sep @ join sep (y # ys)"

text \<open>
  \<open>s.toLowerCase()\<close> on the letters A to Z. The result is only ever compared with the
  command names, which are ASCII and contain no \<open>k\<close>; the one letter outside ASCII that
  Unicode lower-cases to an ASCII letter is the Kelvin sign (to \<open>k\<close>), so the comparison
  comes out as in JavaScript for every input.
\<close>

definition lower_char :: "char \<Rightarrow> char" where
  "lower_char c =
     (let n = (of_char c :: nat) in if 65 \<le> n \<and> n \<le> 90 then char_of (n + 32) else c)"

definition toLowerCase :: "string \<Rightarrow> string" where
  "toLowerCase s = map lower_char s"

text \<open>Decimal rendering of a natural number, as in the template \<open>${i + 1}\<close>.\<close>

fun decimal :: "nat \<Rightarrow> string" where
  "decimal n =
     (if n < 10 then [char_of (48 + n)] else decimal (n div 10) @ [char_of (48 + n mod 10)])"

declare decimal.simps [simp del]

text \<open>
  \<open>String(id)\<close> for an integer \<open>id\<close>, the form Telegram gives a sender identity
  (an integer of at most 52 bits, printed in plain decimal).
\<close>

definition String_int :: "int \<Rightarrow> string" where
  "String_int i = (if i < 0 then CHR ''-'' # decimal (nat (- i)) else decimal (nat i))"

section \<open>JavaScript numbers\<close>

text \<open>
  A Number is NaN, an infinity or a finite binary64 value, held as the rational it denotes
  (the two zeros are one value: no operation of the program tells them apart).
\<close>

datatype jsnum = NaN | PosInf | NegInf | Fin rat

definition pow2 :: "int \<Rightarrow> rat" where
  "pow2 k = (if 0 \<le> k then 2 ^ nat k else 1 / 2 ^ nat (- k))"

definition pow10 :: "int \<Rightarrow> rat" where
  "pow10 k = (if 0 \<le> k then 10 ^ nat k else 1 / 10 ^ nat (- k))"

text \<open>The integer part of the binary logarithm of a positive rational.\<close>

definition ilog2 :: "rat \<Rightarrow> int" where
  "ilog2 q =
     (case quotient_of q of
        (a, b) \<Rightarrow>
          (let d = int (floorlog 2 (nat a)) - int (floorlog 2 (nat b))
           in if pow2 d \<le> q then d else d - 1))"

definition round_half_even :: "rat \<Rightarrow> int" where
  "round_half_even q =
     (let f = \<lfloor>q\<rfloor>; d = q - of_int f
      in if d < 1 / 2 then f
         else if 1 / 2 < d then f + 1
         else if even f then f else f + 1)"

text \<open>
  Rounding of an exact value to binary64, ties to even: 53 significant bits \<open>n\<close> at the
  binary exponent \<open>e\<close>, which is at least that of the subnormals. The rounded value
  \<open>n * 2 ^ (e - 52)\<close> reaches \<open>2 ^ 1024\<close>, and becomes an infinity, exactly when
  \<open>e\<close> is 1024 or more, or \<open>e\<close> is 1023 and \<open>n\<close> was rounded up to \<open>2 ^ 53\<close>.
\<close>

definition RoundToDouble :: "rat \<Rightarrow> jsnum" where
  "RoundToDouble q =
     (if q = 0 then Fin 0
      else let m = \<bar>q\<bar>;
               e = max (ilog2 m) (- 1022);
               u = pow2 (e - 52);
               n = round_half_even (m / u)
           in if 1024 \<le> e \<or> (e = 1023 \<and> n = 2 ^ 53) then (if 0 < q then PosInf else NegInf)
              else Fin (sgn q * (of_int n * u)))"

definition digit_val :: "char \<Rightarrow> nat" where
  "digit_val c =
     (let n = (of_char c :: nat)
      in if 48 \<le> n \<and> n \<le> 57 then n - 48
         else if 97 \<le> n \<and> n \<le> 102 then n - 87
         else if 65 \<le> n \<and> n \<le> 70 then n - 55
         else 16)"

definition is_digit :: "nat \<Rightarrow> char \<Rightarrow> bool" where
  "is_digit radix c = (digit_val c < radix)"

definition digits_value :: "nat \<Rightarrow> string \<Rightarrow> nat" where
  "digits_value radix s = foldl (\<lambda>a c. a * radix + digit_val c) 0 s"

text \<open>\<open>0x\<close>, \<open>0o\<close> and \<open>0b\<close> literals: no sign, at least one digit.\<close>

definition NonDecimalIntegerLiteral :: "string \<Rightarrow> nat option" where
  "NonDecimalIntegerLiteral s =
     (case s of
        z # x # ds \<Rightarrow>
          (let radix = (if x = CHR ''x'' \<or> x = CHR ''X'' then 16
                        else if x = CHR ''o'' \<or> x = CHR ''O'' then 8
                        else if x = CHR ''b'' \<or> x = CHR ''B'' then 2
                        else 0)
           in if z = CHR ''0'' \<and> radix \<noteq> 0 \<and> ds \<noteq> [] \<and> list_all (is_digit radix) ds
              then Some (digits_value radix ds)
              else None)
      | _ \<Rightarrow> None)"

text \<open>What follows the mantissa: nothing, or \<open>e\<close> with an optionally signed decimal exponent.\<close>

definition ExponentPart :: "string \<Rightarrow> int option" where
  "ExponentPart s =
     (case s of
        [] \<Rightarrow> Some 0
      | c # r \<Rightarrow>
          if c = CHR ''e'' \<or> c = CHR ''E'' then
            (let neg = (r \<noteq> [] \<and> hd r = CHR ''-'');
                 ds = (if r \<noteq> [] \<and> (hd r = CHR ''+'' \<or> hd r = CHR ''-'') then tl r else r)
             in if ds \<noteq> [] \<and> list_all (is_digit 10) ds
                then Some (if neg then - int (digits_value 10 ds) else int (digits_value 10 ds))
                else None)
          else None)"

definition StrUnsignedDecimalLiteral :: "string \<Rightarrow> jsnum" where
  "StrUnsignedDecimalLiteral s =
     (if s = ''Infinity'' then PosInf
      else let ip = takeWhile (is_digit 10) s;
               r1 = dropWhile (is_digit 10) s;
               dot = (r1 \<noteq> [] \<and> hd r1 = CHR ''.'');
               fp = (if dot then takeWhile (is_digit 10) (tl r1) else []);
               r2 = (if dot then dropWhile (is_digit 10) (tl r1) else r1)
           in if ip = [] \<and> fp = [] then NaN
              else (case ExponentPart r2 of
                      None \<Rightarrow> NaN
                    | Some e \<Rightarrow>
                        RoundToDouble
                          (of_nat (digits_value 10 (ip @ fp)) * pow10 (e - int (length fp)))))"

definition negate :: "jsnum \<Rightarrow> jsnum" where
  "negate n = (case n of NaN \<Rightarrow> NaN | PosInf \<Rightarrow> NegInf | NegInf \<Rightarrow> PosInf | Fin q \<Rightarrow> Fin (- q))"

text \<open>The conversion of a string to a Number (StringToNumber of ECMA-262).\<close>

definition StringToNumber :: "string \<Rightarrow> jsnum" where
  "StringToNumber s =
     (let t = trim s
      in if t = [] then Fin 0
         else (case NonDecimalIntegerLiteral t of
                 Some n \<Rightarrow> RoundToDouble (of_nat n)
               | None \<Rightarrow>
                   if hd t = CHR ''+'' then StrUnsignedDecimalLiteral (tl t)
                   else if hd t = CHR ''-'' then negate (StrUnsignedDecimalLiteral (tl t))
                   else StrUnsignedDecimalLiteral t))"

text \<open>\<open>Number(parts[k])\<close>: a missing element is \<open>undefined\<close>, which converts to NaN.\<close>

definition Number_js :: "string option \<Rightarrow> jsnum" where
  "Number_js v = (case v of None \<Rightarrow> NaN | Some s \<Rightarrow> StringToNumber s)"

text \<open>\<open>!idx\<close>: a Number is falsy when it is NaN or zero.\<close>

definition falsy :: "jsnum \<Rightarrow> bool" where
  "falsy n = (n = NaN \<or> n = Fin 0)"

definition isInteger :: "jsnum \<Rightarrow> bool" where
  "isInteger n = (case n of Fin q \<Rightarrow> of_int \<lfloor>q\<rfloor> = q | _ \<Rightarrow> False)"

text \<open>\<open>idx < 1\<close>.\<close>

definition less_than_one :: "jsnum \<Rightarrow> bool" where
  "less_than_one n = (case n of NaN \<Rightarrow> False | PosInf \<Rightarrow> False | NegInf \<Rightarrow> True | Fin q \<Rightarrow> q < 1)"

text \<open>\<open>idx - 1\<close>, a binary64 subtraction.\<close>

definition minus_one :: "jsnum \<Rightarrow> jsnum" where
  "minus_one n = (case n of Fin q \<Rightarrow> RoundToDouble (q - 1) | _ \<Rightarrow> n)"

text \<open>
  \<open>`${idx}`\<close>: Number::toString. An integer below \<open>10 ^ 21\<close> in magnitude prints in plain
  decimal. Every other finite value prints in the shortest form that reads back as the
  same binary64 value; that form is not modelled, and the result is \<open>None\<close> there.
\<close>

definition Number_toString :: "jsnum \<Rightarrow> string option" where
  "Number_toString n =
     (case n of
        NaN \<Rightarrow> Some ''NaN''
      | PosInf \<Rightarrow> Some ''Infinity''
      | NegInf \<Rightarrow> Some ''-Infinity''
      | Fin q \<Rightarrow>
          if of_int \<lfloor>q\<rfloor> = q \<and> \<bar>q\<bar> < 10 ^ 21 then Some (String_int \<lfloor>q\<rfloor>) else None)"

section \<open>JavaScript arrays\<close>

text \<open>
  \<open>xs[k]\<close> for a Number \<open>k\<close>: the property key is an index of the array when \<open>k\<close> is an
  integer from 0 to below the length; any other key names no element and reads
  \<open>undefined\<close>.
\<close>

definition array_index :: "nat \<Rightarrow> jsnum \<Rightarrow> nat option" where
  "array_index len k =
     (case k of
        Fin q \<Rightarrow> if of_int \<lfloor>q\<rfloor> = q \<and> 0 \<le> q \<and> nat \<lfloor>q\<rfloor> < len then Some (nat \<lfloor>q\<rfloor>) else None
      | _ \<Rightarrow> None)"

definition ToIntegerOrInfinity :: "jsnum \<Rightarrow> jsnum" where
  "ToIntegerOrInfinity n =
     (case n of
        NaN \<Rightarrow> Fin 0
      | Fin q \<Rightarrow> Fin (of_int (if 0 \<le> q then \<lfloor>q\<rfloor> else \<lceil>q\<rceil>))
      | _ \<Rightarrow> n)"

text \<open>
  \<open>xs.splice(start, count)\<close> with no items to insert: a negative start counts from the
  end, the start is clamped to the array and the count to what follows the start. The
  result is the removed elements and the array as it is left.
\<close>

definition splice_js :: "'a list \<Rightarrow> jsnum \<Rightarrow> nat \<Rightarrow> 'a list \<times> 'a list" where
  "splice_js xs start count =
     (let len = length xs;
          a = (case ToIntegerOrInfinity start of
                 NegInf \<Rightarrow> 0
               | PosInf \<Rightarrow> len
               | NaN \<Rightarrow> 0
               | Fin r \<Rightarrow> if r < 0 then nat (max (int len + \<lfloor>r\<rfloor>) 0) else min (nat \<lfloor>r\<rfloor>) len);
          c = min count (len - a)
      in (take c (drop a xs), take a xs @ drop (a + c) xs))"

section \<open>The task document\<close>

datatype json =
    JNull
  | JBool bool
  | JNum rat
  | JStr string
  | JArr "json list"
  | JObj "(string \<times> json) list"

text \<open>ToBoolean, as \<open>||\<close> applies it.\<close>

definition truthy :: "json \<Rightarrow> bool" where
  "truthy j =
     (case j of
        JNull \<Rightarrow> False
      | JBool b \<Rightarrow> b
      | JNum q \<Rightarrow> q \<noteq> 0
      | JStr s \<Rightarrow> s \<noteq> []
      | JArr _ \<Rightarrow> True
      | JObj _ \<Rightarrow> True)"

text \<open>
  \<open>j.record\<close> on a parsed value other than \<open>null\<close>: the member of an object (the last one
  when the text repeated the key), \<open>undefined\<close> on everything else.
\<close>

definition record_of :: "json \<Rightarrow> json option" where
  "record_of j = (case j of JObj kvs \<Rightarrow> map_of (rev kvs) ''record'' | _ \<Rightarrow> None)"

record doc =
  weekday :: "string list"
  weekend :: "string list"

definition default_doc :: doc where
  "default_doc = \<lparr>weekday = [], weekend = []\<rparr>"

text \<open>The value that \<open>JSON.stringify\<close> writes for a document.\<close>

definition json_of_doc :: "doc \<Rightarrow> json" where
  "json_of_doc d =
     JObj [(''weekday'', JArr (map JStr (weekday d))), (''weekend'', JArr (map JStr (weekend d)))]"

fun as_strings :: "json list \<Rightarrow> string list option" where
  "as_strings [] = Some []"
| "as_strings (JStr s # js) = map_option ((#) s) (as_strings js)"
| "as_strings (_ # js) = None"

text \<open>
  The router is modelled on the values that are task documents: an object of the two
  lists, each an array of strings. On any other value the source runs on JavaScript's
  dynamic typing (a TypeError on a missing list, the rendering of elements that are not
  strings); that behaviour is outside this model, which answers \<open>None\<close> there.
\<close>

definition as_doc :: "json \<Rightarrow> doc option" where
  "as_doc j =
     (case j of
        JObj kvs \<Rightarrow>
          (case kvs of
             [(k1, JArr a), (k2, JArr b)] \<Rightarrow>
               if k1 = ''weekday'' \<and> k2 = ''weekend'' then
                 (case (as_strings a, as_strings b) of
                    (Some x, Some y) \<Rightarrow> Some \<lparr>weekday = x, weekend = y\<rparr>
                  | _ \<Rightarrow> None)
               else None
           | _ \<Rightarrow> None)
      | _ \<Rightarrow> None)"

text \<open>\<open>db[list]\<close> and the assignment to it, for a list name that is one of the two.\<close>

definition get_list :: "string \<Rightarrow> doc \<Rightarrow> string list" where
  "get_list l db = (if l = ''weekday'' then weekday db else weekend db)"

definition set_list :: "string \<Rightarrow> string list \<Rightarrow> doc \<Rightarrow> doc" where
  "set_list l xs db = (if l = ''weekday'' then db\<lparr>weekday := xs\<rparr> else db\<lparr>weekend := xs\<rparr>)"

section \<open>Effects\<close>

text \<open>
  What a handler does to the outside, in order: the GET and PUT requests to the JSONBin
  store (\<open>Get\<close>, \<open>Put\<close> with the body), lowdb's \<open>db.read()\<close> and \<open>db.write()\<close> (\<open>Read\<close>,
  \<open>Write\<close> with the data), the console lines of the storage helpers and of the webhook
  (\<open>Log\<close>), and the calls of \<open>sendTelegram\<close> (\<open>Send\<close> with the text). \<open>sendTelegram\<close>
  catches a failing delivery itself, so the call is all the router sees of it.
\<close>

datatype logline =
    FetchFailed
  | SaveRejected string
  | SaveFailed
  | SaveOk
  | Incoming
  | WebhookError

datatype effect =
    Get
  | Put json
  | Read
  | Write json
  | Log logline
  | Send string

definition sent :: "effect list \<Rightarrow> string list" where
  "sent es = concat (map (\<lambda>e. case e of Send t \<Rightarrow> [t] | _ \<Rightarrow> []) es)"

definition stored :: "effect list \<Rightarrow> json list" where
  "stored es =
     concat (map (\<lambda>e. case e of Put j \<Rightarrow> [j] | Write j \<Rightarrow> [j] | _ \<Rightarrow> []) es)"

definition logged :: "effect list \<Rightarrow> logline list" where
  "logged es = concat (map (\<lambda>e. case e of Log l \<Rightarrow> [l] | _ \<Rightarrow> []) es)"

definition sendTelegram :: "string \<Rightarrow> effect list" where
  "sendTelegram t = [Send t]"

section \<open>JSONBin storage helpers (part_000)\<close>

text \<open>
  What the GET of \<open>getData\<close> can come to: \<open>fetch\<close> throws, \<open>res.json()\<close> throws on a body
  that is not JSON, or the body parses to a value.
\<close>

datatype get_outcome = GetThrows | GetNotJson | GetJson json

text \<open>
  \<open>getData\<close>: the value returned and the console line of the \<open>catch\<close>. Reading \<open>.record\<close>
  of \<open>null\<close> throws a TypeError inside the \<open>try\<close>.
\<close>

definition getData :: "get_outcome \<Rightarrow> json \<times> effect list" where
  "getData g =
     (case g of
        GetThrows \<Rightarrow> (json_of_doc default_doc, [Log FetchFailed])
      | GetNotJson \<Rightarrow> (json_of_doc default_doc, [Log FetchFailed])
      | GetJson j \<Rightarrow>
          if j = JNull then (json_of_doc default_doc, [Log FetchFailed])
          else (case record_of j of
                  None \<Rightarrow> (json_of_doc default_doc, [])
                | Some r \<Rightarrow> if truthy r then (r, []) else (json_of_doc default_doc, [])))"

text \<open>
  What the PUT of \<open>saveData\<close> can come to: \<open>fetch\<close> throws, the response is not ok (its
  text is read for the console, which can throw as well), or the response is ok.
\<close>

datatype put_outcome = PutThrows | PutNotOk "string option" | PutOk

definition saveData :: "doc \<Rightarrow> put_outcome \<Rightarrow> effect list" where
  "saveData data p =
     Put (json_of_doc data) #
     (case p of
        PutThrows \<Rightarrow> [Log SaveFailed]
      | PutNotOk None \<Rightarrow> [Log SaveFailed]
      | PutNotOk (Some errText) \<Rightarrow> [Log (SaveRejected errText)]
      | PutOk \<Rightarrow> [Log SaveOk])"

section \<open>Core helpers\<close>

definition nl :: string where
  "nl = [CHR 0x0A]"

definition numbered :: "nat \<Rightarrow> string list \<Rightarrow> string list" where
  "numbered i ts = map (\<lambda>(i, t). decimal (i + 1) @ ''. '' @ t) (enumerate i ts)"

text \<open>\<open>formatList\<close> of part_000, on a list that is there.\<close>

definition formatList :: "string list \<Rightarrow> string" where
  "formatList list = (if length list = 0 then ''_(empty)_'' else join nl (numbered 0 list))"

text \<open>\<open>prettyList\<close> of index.js has the same body.\<close>

definition prettyList :: "string list \<Rightarrow> string" where
  "prettyList list = (if length list = 0 then ''_(empty)_'' else join nl (numbered 0 list))"

text \<open>
  The weekday name that \<open>toLocaleString\<close> or \<open>Intl.DateTimeFormat\<close> gives for the current
  date in Asia/Kolkata is the argument \<open>day\<close>.
\<close>

definition getListTypeByDay :: "string \<Rightarrow> string" where
  "getListTypeByDay day = (if day = ''Saturday'' \<or> day = ''Sunday'' then ''weekend'' else ''weekday'')"

definition istDayType :: "string \<Rightarrow> string" where
  "istDayType weekdayName =
     (if weekdayName = ''Saturday'' \<or> weekdayName = ''Sunday'' then ''weekend'' else ''weekday'')"

section \<open>Command line\<close>

text \<open>\<open>text.trim().split(" ")\<close>.\<close>

definition parts_of :: "string \<Rightarrow> string list" where
  "parts_of t = split CHR '' '' (trim t)"

text \<open>\<open>parts[k]\<close>, \<open>undefined\<close> beyond the end.\<close>

definition element :: "string list \<Rightarrow> nat \<Rightarrow> string option" where
  "element parts k = (if k < length parts then Some (parts ! k) else None)"

text \<open>\<open>["weekday", "weekend"].includes(list)\<close>.\<close>

definition valid_list :: "string option \<Rightarrow> bool" where
  "valid_list list = (list = Some ''weekday'' \<or> list = Some ''weekend'')"

text \<open>\<open>parts.slice(k).join(" ").trim()\<close>.\<close>

definition rest_text :: "nat \<Rightarrow> string list \<Rightarrow> string" where
  "rest_text k parts = trim (join '' '' (drop k parts))"

section \<open>Command handler of part_000\<close>

definition help_text :: string where
  "help_text =
     ''*To-Do Bot Commands*'' @ nl @ nl @
     ''/add <weekday|weekend> <task>'' @ nl @
     ''/view <weekday|weekend>'' @ nl @
     ''/edit <weekday|weekend> <index> <new task>'' @ nl @
     ''/remove <weekday|weekend> <index>'' @ nl @
     ''/lists '' @ [CHR 0xE2, CHR 0x80, CHR 0x94] @ '' view both lists'' @ nl"

definition lists_text :: "doc \<Rightarrow> string" where
  "lists_text db =
     ''*Weekday:*'' @ nl @ formatList (weekday db) @ nl @ nl @
     ''*Weekend:*'' @ nl @ formatList (weekend db)"

definition usage_view :: string where
  "usage_view = ''Usage: /view <weekday|weekend>''"

definition view_text :: "string \<Rightarrow> string list \<Rightarrow> string" where
  "view_text l xs = ''*'' @ l @ ''*'' @ nl @ formatList xs"

definition usage_add :: string where
  "usage_add = ''Usage: /add <weekday|weekend> <task>''"

definition check_mark :: string where
  "check_mark = [CHR 0xE2, CHR 0x9C, CHR 0x85]"

definition cross_mark :: string where
  "cross_mark = [CHR 0xE2, CHR 0x9D, CHR 0x8C]"

definition added_text :: "string \<Rightarrow> string \<Rightarrow> string" where
  "added_text l task = check_mark @ '' Added to *'' @ l @ ''*: '' @ task"

definition usage_edit :: string where
  "usage_edit = ''Usage: /edit <weekday|weekend> <index> <new text>''"

definition out_of_range :: string where
  "out_of_range = cross_mark @ '' Index out of range.''"

definition arrow :: string where
  "arrow = [CHR 0xE2, CHR 0x86, CHR 0x92]"

definition edited_text :: "string \<Rightarrow> string \<Rightarrow> string \<Rightarrow> string \<Rightarrow> string" where
  "edited_text l idx old newText =
     [CHR 0xE2, CHR 0x9C, CHR 0x8F, CHR 0xEF, CHR 0xB8, CHR 0x8F] @ '' Edited *'' @ l @ ''* '' @ idx @
     '': '' @ [CHR 0x22] @ old @ [CHR 0x22] @ '' '' @ arrow @ '' '' @ [CHR 0x22] @ newText @ [CHR 0x22]"

definition usage_remove :: string where
  "usage_remove = ''Usage: /remove <weekday|weekend> <index>''"

definition removed_text :: "string \<Rightarrow> string \<Rightarrow> string" where
  "removed_text l item =
     [CHR 0xF0, CHR 0x9F, CHR 0x97, CHR 0x91, CHR 0xEF, CHR 0xB8, CHR 0x8F] @
     '' Removed from *'' @ l @ ''*: '' @ item"

definition unknown_command :: string where
  "unknown_command = ''Unknown command. Use /help for usage.''"

text \<open>
  The \<open>switch\<close> of \<open>handleCommand\<close>, on the document \<open>db\<close> that \<open>getData\<close> returned and with
  the outcome \<open>p\<close> of the PUT, should the command save.
\<close>

definition switch_cmd :: "string \<Rightarrow> doc \<Rightarrow> put_outcome \<Rightarrow> effect list option" where
  "switch_cmd t db p =
     (let parts = parts_of t;
          cmd = toLowerCase (hd parts)
      in if cmd = ''/help'' then Some (sendTelegram help_text)
         else if cmd = ''/lists'' then Some (sendTelegram (lists_text db))
         else if cmd = ''/view'' then
           (let list = element parts 1
            in if \<not> valid_list list then Some (sendTelegram usage_view)
               else Some (sendTelegram (view_text (the list) (get_list (the list) db))))
         else if cmd = ''/add'' then
           (let list = element parts 1;
                task = rest_text 2 parts
            in if \<not> valid_list list \<or> task = [] then Some (sendTelegram usage_add)
               else Some (saveData (set_list (the list) (get_list (the list) db @ [task]) db) p @
                          sendTelegram (added_text (the list) task)))
         else if cmd = ''/edit'' then
           (let list = element parts 1;
                idx = Number_js (element parts 2);
                newText = rest_text 3 parts
            in if \<not> valid_list list \<or> falsy idx \<or> newText = [] then Some (sendTelegram usage_edit)
               else (let xs = get_list (the list) db
                     in case array_index (length xs) (minus_one idx) of
                          None \<Rightarrow> Some (sendTelegram out_of_range)
                        | Some k \<Rightarrow>
                            if xs ! k = [] then Some (sendTelegram out_of_range)
                            else (case Number_toString idx of
                                    None \<Rightarrow> None
                                  | Some n \<Rightarrow>
                                      Some (saveData (set_list (the list) (xs[k := newText]) db) p @
                                            sendTelegram (edited_text (the list) n (xs ! k) newText)))))
         else if cmd = ''/remove'' then
           (let list = element parts 1;
                idx = Number_js (element parts 2)
            in if \<not> valid_list list \<or> falsy idx then Some (sendTelegram usage_remove)
               else (case splice_js (get_list (the list) db) (minus_one idx) 1 of
                       (item, rest) \<Rightarrow>
                         Some (saveData (set_list (the list) rest db) p @
                               (if length item \<noteq> 0
                                then sendTelegram (removed_text (the list) (hd item))
                                else sendTelegram out_of_range))))
         else Some (sendTelegram unknown_command))"

text \<open>
  \<open>handleCommand(text, fromId)\<close> of part_000. \<open>CHAT_ID\<close> is the environment variable, a
  string; \<open>fromId\<close> is the sender identity of the update, an integer; \<open>g\<close> and \<open>p\<close> are what
  the GET and the PUT of this call come to. \<open>None\<close>: the record fetched is no task document.
\<close>

definition handleCommand ::
  "string \<Rightarrow> string \<Rightarrow> int \<Rightarrow> get_outcome \<Rightarrow> put_outcome \<Rightarrow> effect list option" where
  "handleCommand CHAT_ID t fromId g p =
     (if String_int fromId \<noteq> CHAT_ID then Some []
      else (case getData g of
              (j, lg) \<Rightarrow>
                (case as_doc j of
                   None \<Rightarrow> None
                 | Some db \<Rightarrow> map_option (\<lambda>es. Get # lg @ es) (switch_cmd t db p))))"

section \<open>Command handler of index.js\<close>

text \<open>
  The lowdb file holds a task document. \<open>db.read()\<close> and \<open>db.write()\<close> can fail, and the
  handler does not catch that: the rejection leaves \<open>handleCommand\<close> at once.
\<close>

record lowdb_env =
  read_ok :: bool
  write_ok :: bool

datatype status = Returned | Thrown

definition help_text_lowdb :: string where
  "help_text_lowdb =
     ''*Todo Bot Help*'' @ nl @ nl @
     ''/add <weekday|weekend> <task> - add a task'' @ nl @
     ''/view <weekday|weekend> - view tasks'' @ nl @
     ''/edit <weekday|weekend> <index> <new task> - edit'' @ nl @
     ''/remove <weekday|weekend> <index> - remove task'' @ nl @
     ''/lists - show both lists''"

definition lists_text_lowdb :: "doc \<Rightarrow> string" where
  "lists_text_lowdb db =
     ''*Weekday:*'' @ nl @ prettyList (weekday db) @ nl @ nl @
     ''*Weekend:*'' @ nl @ prettyList (weekend db)"

definition view_text_lowdb :: "string \<Rightarrow> string list \<Rightarrow> string" where
  "view_text_lowdb l xs = ''*'' @ l @ ''*'' @ nl @ prettyList xs"

definition provide_task :: string where
  "provide_task = ''Please provide a task text.''"

definition added_text_lowdb :: "string \<Rightarrow> string \<Rightarrow> string" where
  "added_text_lowdb l task = ''Added to *'' @ l @ ''*: '' @ task"

definition out_of_range_lowdb :: string where
  "out_of_range_lowdb = ''Index out of range.''"

definition edited_text_lowdb :: "string \<Rightarrow> string \<Rightarrow> string \<Rightarrow> string \<Rightarrow> string" where
  "edited_text_lowdb l idx old newText =
     ''Edited *'' @ l @ ''* '' @ idx @
     '': '' @ [CHR 0x22] @ old @ [CHR 0x22] @ '' '' @ arrow @ '' '' @ [CHR 0x22] @ newText @ [CHR 0x22]"

definition removed_text_lowdb :: "string \<Rightarrow> string \<Rightarrow> string" where
  "removed_text_lowdb l item = ''Removed from *'' @ l @ ''*: '' @ item"

definition unknown_command_lowdb :: string where
  "unknown_command_lowdb = ''Unknown command. Use /help for commands.''"

text \<open>\<open>await db.read()\<close> and what follows it; \<open>await db.write()\<close> and what follows it.\<close>

definition db_read ::
  "lowdb_env \<Rightarrow> (effect list \<times> status) option \<Rightarrow> (effect list \<times> status) option" where
  "db_read env rest =
     (if read_ok env then map_option (\<lambda>(es, st). (Read # es, st)) rest
      else Some ([Read], Thrown))"

definition db_write :: "lowdb_env \<Rightarrow> doc \<Rightarrow> effect list \<Rightarrow> effect list \<times> status" where
  "db_write env data rest =
     (if write_ok env then (Write (json_of_doc data) # rest, Returned)
      else ([Write (json_of_doc data)], Thrown))"

text \<open>
  \<open>handleCommand(text, fromId)\<close> of index.js, on the document \<open>file\<close> that \<open>db.read()\<close>
  loads. \<open>None\<close>: the index would print in a form that is not modelled.
\<close>

definition handleCommand_lowdb ::
  "string \<Rightarrow> int \<Rightarrow> doc \<Rightarrow> lowdb_env \<Rightarrow> (effect list \<times> status) option" where
  "handleCommand_lowdb t fromId file env =
     (let parts = parts_of t;
          cmd = toLowerCase (hd parts)
      in if cmd = ''/help'' then Some (sendTelegram help_text_lowdb, Returned)
         else if cmd = ''/lists'' then
           db_read env (Some (sendTelegram (lists_text_lowdb file), Returned))
         else if cmd = ''/view'' then
           (let listName = element parts 1
            in if \<not> valid_list listName then Some (sendTelegram usage_view, Returned)
               else db_read env
                      (Some (sendTelegram
                               (view_text_lowdb (the listName) (get_list (the listName) file)),
                             Returned)))
         else if cmd = ''/add'' then
           (let listName = element parts 1
            in if \<not> valid_list listName then Some (sendTelegram usage_add, Returned)
               else (let task = rest_text 2 parts
                     in if task = [] then Some (sendTelegram provide_task, Returned)
                        else db_read env
                               (Some (db_write env
                                        (set_list (the listName)
                                           (get_list (the listName) file @ [task]) file)
                                        (sendTelegram (added_text_lowdb (the listName) task))))))
         else if cmd = ''/edit'' then
           (let listName = element parts 1;
                idx = Number_js (element parts 2);
                newText = rest_text 3 parts
            in if \<not> valid_list listName \<or> \<not> isInteger idx \<or> less_than_one idx \<or> newText = []
               then Some (sendTelegram usage_edit, Returned)
               else db_read env
                      (let xs = get_list (the listName) file
                       in case array_index (length xs) (minus_one idx) of
                            None \<Rightarrow> Some (sendTelegram out_of_range_lowdb, Returned)
                          | Some k \<Rightarrow>
                              if xs ! k = [] then Some (sendTelegram out_of_range_lowdb, Returned)
                              else (case Number_toString idx of
                                      None \<Rightarrow> None
                                    | Some n \<Rightarrow>
                                        Some (db_write env
                                                (set_list (the listName) (xs[k := newText]) file)
                                                (sendTelegram
                                                   (edited_text_lowdb (the listName) n (xs ! k)
                                                      newText))))))
         else if cmd = ''/remove'' then
           (let listName = element parts 1;
                idx = Number_js (element parts 2)
            in if \<not> valid_list listName \<or> \<not> isInteger idx \<or> less_than_one idx
               then Some (sendTelegram usage_remove, Returned)
               else db_read env
                      (case splice_js (get_list (the listName) file) (minus_one idx) 1 of
                         (item, rest) \<Rightarrow>
                           Some (db_write env (set_list (the listName) rest file)
                                   (if length item = 0 then sendTelegram out_of_range_lowdb
                                    else sendTelegram (removed_text_lowdb (the listName) (hd item))))))
         else Some (sendTelegram unknown_command_lowdb, Returned))"

section \<open>Routes\<close>

text \<open>
  The part of a Telegram update that the webhook reads: \<open>update?.message?.text\<close>
  (\<open>None\<close> when the update, its message or the text is missing) and
  \<open>update.message.from.id\<close> (\<open>None\<close> when the message has no \<open>from\<close>, so that reading
  \<open>.id\<close> throws). The answer of a route is the HTTP status and body.
\<close>

record update =
  message_text :: "string option"
  message_from :: "int option"

definition has_text :: "update \<Rightarrow> bool" where
  "has_text u = (case message_text u of None \<Rightarrow> False | Some t \<Rightarrow> t \<noteq> [])"

text \<open>\<open>app.post("/webhook")\<close> of part_000.\<close>

definition webhook ::
  "string \<Rightarrow> update \<Rightarrow> get_outcome \<Rightarrow> put_outcome \<Rightarrow> (effect list \<times> nat \<times> string) option" where
  "webhook CHAT_ID u g p =
     (if has_text u then
        (case message_from u of
           None \<Rightarrow> Some ([Log Incoming, Log WebhookError], 500, ''error'')
         | Some fromId \<Rightarrow>
             map_option (\<lambda>es. (Log Incoming # es, 200, ''ok''))
               (handleCommand CHAT_ID (the (message_text u)) fromId g p))
      else Some ([Log Incoming], 200, ''ok''))"

text \<open>\<open>app.post("/webhook")\<close> of index.js.\<close>

definition webhook_lowdb ::
  "string \<Rightarrow> update \<Rightarrow> doc \<Rightarrow> lowdb_env \<Rightarrow> (effect list \<times> nat \<times> string) option" where
  "webhook_lowdb CHAT_ID u file env =
     (if has_text u then
        (case message_from u of
           None \<Rightarrow> Some ([Log WebhookError], 500, ''error'')
         | Some fromId \<Rightarrow>
             if String_int fromId \<noteq> CHAT_ID then Some ([], 200, ''ignored'')
             else (case handleCommand_lowdb (the (message_text u)) fromId file env of
                     None \<Rightarrow> None
                   | Some (es, Returned) \<Rightarrow> Some (es, 200, ''ok'')
                   | Some (es, Thrown) \<Rightarrow> Some (es @ [Log WebhookError], 500, ''error'')))
      else Some ([], 200, ''ok''))"

definition calendar :: string where
  "calendar = [CHR 0xF0, CHR 0x9F, CHR 0x97, CHR 0x93, CHR 0xEF, CHR 0xB8, CHR 0x8F]"

definition morning_text :: "string \<Rightarrow> string list \<Rightarrow> string" where
  "morning_text listType list =
     calendar @ '' Good morning, Digi!'' @ nl @ ''Your *'' @ listType @ ''* tasks:'' @ nl @ nl @
     formatList list"

definition no_tasks_text :: "string \<Rightarrow> string" where
  "no_tasks_text listType = check_mark @ '' You have no *'' @ listType @ ''* tasks today!''"

definition no_tasks_text_cron :: "string \<Rightarrow> string" where
  "no_tasks_text_cron listType =
     check_mark @ '' No *'' @ listType @ ''* tasks today! Enjoy your day '' @
     [CHR 0xE2, CHR 0x98, CHR 0x80, CHR 0xEF, CHR 0xB8, CHR 0x8F]"

text \<open>\<open>app.get("/")\<close> of part_000: the message sent for the weekday name \<open>day\<close>.\<close>

definition daily_route :: "string \<Rightarrow> get_outcome \<Rightarrow> (effect list \<times> string) option" where
  "daily_route day g =
     (case getData g of
        (j, lg) \<Rightarrow>
          (case as_doc j of
             None \<Rightarrow> None
           | Some db \<Rightarrow>
               (let listType = getListTypeByDay day;
                    list = get_list listType db;
                    msg = (if length list \<noteq> 0 then morning_text listType list
                           else no_tasks_text listType)
                in Some (Get # lg @ sendTelegram msg,
                         check_mark @ '' Daily list sent to Telegram.''))))"

text \<open>The job of \<open>cron.schedule\<close> in part_000.\<close>

definition daily_cron :: "string \<Rightarrow> get_outcome \<Rightarrow> effect list option" where
  "daily_cron day g =
     (case getData g of
        (j, lg) \<Rightarrow>
          (case as_doc j of
             None \<Rightarrow> None
           | Some db \<Rightarrow>
               (let listType = getListTypeByDay day;
                    list = get_list listType db;
                    msg = (if length list \<noteq> 0 then morning_text listType list
                           else no_tasks_text_cron listType)
                in Some (Get # lg @ sendTelegram msg))))"

definition header_lowdb :: "string \<Rightarrow> string" where
  "header_lowdb which =
     calendar @ '' *Good morning!* Here is your *'' @ which @ ''* list for today:'' @ nl @ nl"

text \<open>
  \<open>app.get("/")\<close> of index.js. The list of a task document is an array, which is truthy, so
  \<open>db.data[which] || []\<close> is the list. The route has no \<open>try\<close>: a failing read leaves it
  without an answer.
\<close>

definition daily_route_lowdb :: "string \<Rightarrow> doc \<Rightarrow> lowdb_env \<Rightarrow> effect list \<times> string option" where
  "daily_route_lowdb day file env =
     (if read_ok env then
        (let which = istDayType day;
             list = get_list which file
         in (Read # sendTelegram (header_lowdb which @ prettyList list),
             Some (''Sent today'' @ [CHR 0x27] @ ''s to-do list.'')))
      else ([Read], None))"

section \<open>Start-up of index.js\<close>

text \<open>
  What \<open>db.read()\<close> leaves in \<open>db.data\<close>: it throws (a file that cannot be read or is not
  JSON), gives \<open>null\<close> (no file), or gives the parsed value.
\<close>

datatype lowdb_read = ReadThrows | ReadNull | ReadJson json

text \<open>\<open>initDB\<close>: \<open>db.data\<close> as it is left (\<open>None\<close>: never set), the effects, and how it ends.\<close>

definition initDB :: "lowdb_read \<Rightarrow> bool \<Rightarrow> json option \<times> effect list \<times> status" where
  "initDB r wok =
     (case r of
        ReadThrows \<Rightarrow> (None, [Read], Thrown)
      | ReadNull \<Rightarrow>
          (Some (json_of_doc default_doc), [Read, Write (json_of_doc default_doc)],
           if wok then Returned else Thrown)
      | ReadJson j \<Rightarrow>
          (let data = (if truthy j then j else json_of_doc default_doc)
           in (Some data, [Read, Write data], if wok then Returned else Thrown)))"

section \<open>The store over a run of commands\<close>

text \<open>
  The JSONBin store holds one JSON value, the record. A GET that gets through answers
  \<open>{record: ...}\<close> with that value; one that does not either throws or brings a body that
  is not JSON. A PUT that is answered ok has replaced the record by its body; any other
  leaves the record as it was.
\<close>

datatype link = Up | Down | Garbled

definition fetch_latest :: "json \<Rightarrow> link \<Rightarrow> get_outcome" where
  "fetch_latest bin l =
     (case l of Up \<Rightarrow> GetJson (JObj [(''record'', bin)]) | Down \<Rightarrow> GetThrows | Garbled \<Rightarrow> GetNotJson)"

record request =
  req_text :: string
  req_from :: int
  req_get :: link
  req_put :: put_outcome

definition step_bin :: "string \<Rightarrow> json \<Rightarrow> request \<Rightarrow> json" where
  "step_bin CHAT_ID bin r =
     (case handleCommand CHAT_ID (req_text r) (req_from r) (fetch_latest bin (req_get r)) (req_put r) of
        None \<Rightarrow> bin
      | Some es \<Rightarrow> if req_put r = PutOk then last (bin # stored es) else bin)"

inductive reachable_bin :: "string \<Rightarrow> json \<Rightarrow> bool" for CHAT_ID :: string where
  bin_init: "reachable_bin CHAT_ID (json_of_doc default_doc)"
| bin_step: "reachable_bin CHAT_ID bin \<Longrightarrow> reachable_bin CHAT_ID (step_bin CHAT_ID bin r)"

text \<open>
  The lowdb file holds the document that \<open>initDB\<close> wrote. A write that succeeds replaces
  it by the data written; a write that fails leaves it.
\<close>

record request_lowdb =
  lreq_text :: string
  lreq_from :: int
  lreq_env :: lowdb_env

definition step_file :: "json \<Rightarrow> request_lowdb \<Rightarrow> json" where
  "step_file file r =
     (case as_doc file of
        None \<Rightarrow> file
      | Some d \<Rightarrow>
          (case handleCommand_lowdb (lreq_text r) (lreq_from r) d (lreq_env r) of
             None \<Rightarrow> file
           | Some (es, st) \<Rightarrow> if write_ok (lreq_env r) then last (file # stored es) else file))"

inductive reachable_file :: "json \<Rightarrow> bool" where
  file_init: "reachable_file (json_of_doc default_doc)"
| file_step: "reachable_file file \<Longrightarrow> reachable_file (step_file file r)"

text \<open>
  The invariant of the stored document: every task of both lists is a string that is not
  empty once trimmed.
\<close>

definition doc_ok :: "doc \<Rightarrow> bool" where
  "doc_ok d = ((\<forall>x \<in> set (weekday d). trim x \<noteq> []) \<and> (\<forall>x \<in> set (weekend d). trim x \<noteq> []))"

section \<open>The specification's tokenizer\<close>

text \<open>
  The specification words the parsing as a split of the command line on whitespace. This
  is that reading, for comparison with \<open>parts_of\<close>: the tokens are the maximal runs of
  the line that hold no white space.
\<close>

function words_from :: "string \<Rightarrow> string \<Rightarrow> string list" where
  "words_from cur [] = (if cur = [] then [] else [cur])"
| "words_from cur (c # s) =
     (if match_len white_space (c # s) = 0 then words_from (cur @ [c]) s
      else (if cur = [] then [] else [cur]) @
           words_from [] (drop (match_len white_space (c # s) - 1) s))"
  by pat_completeness auto

termination
  by (relation "measure (\<lambda>(cur, s). length s)") auto

definition spec_tokens :: "string \<Rightarrow> string list" where
  "spec_tokens t = words_from [] t"

section \<open>Basic facts\<close>

lemma split_not_Nil: "split c s \<noteq> []"
  by (induction s) (auto split: list.splits)

lemma as_strings_map_JStr: "as_strings (map JStr xs) = Some xs"
  by (induction xs) auto

lemma as_doc_json_of_doc: "as_doc (json_of_doc d) = Some d"
  by (simp add: as_doc_def json_of_doc_def as_strings_map_JStr)

lemma round_half_even_of_int: "round_half_even (of_int z) = z"
  by (simp add: round_half_even_def)

lemma quotient_of_of_nat: "quotient_of (of_nat n) = (int n, 1)"
  by (metis of_int_of_nat_eq quotient_of_int Rat.of_int_def)

lemma floorlog_2_1: "floorlog 2 (Suc 0) = 1"
  by (simp add: floorlog_def)

lemma ilog2_of_nat:
  assumes "0 < n"
  shows "ilog2 (of_nat n) = int (floorlog 2 n) - 1"
proof -
  have pos: "0 < floorlog 2 n"
    using assms by (simp add: floorlog_def)
  have "(2::nat) ^ (floorlog 2 n - 1) \<le> n"
    using floorlog_bounds [of n 2] assms by simp
  then have "(of_nat ((2::nat) ^ (floorlog 2 n - 1)) :: rat) \<le> of_nat n"
    by (simp only: of_nat_le_iff)
  then have "pow2 (int (floorlog 2 n) - 1) \<le> of_nat n"
    using pos by (simp add: pow2_def nat_diff_distrib)
  then show ?thesis
    by (simp add: ilog2_def quotient_of_of_nat floorlog_2_1)
qed

lemma RoundToDouble_of_nat:
  assumes "n < 2 ^ 53"
  shows "RoundToDouble (of_nat n) = Fin (of_nat n)"
proof (cases "n = 0")
  case True
  then show ?thesis by (simp add: RoundToDouble_def)
next
  case False
  then have n: "0 < n" by simp
  define fl where "fl = floorlog 2 n"
  have fl1: "1 \<le> fl"
    using n by (simp add: fl_def floorlog_def)
  have fl53: "fl \<le> 53"
    using assms by (simp add: fl_def floorlog_le_iff)
  have e: "ilog2 (of_nat n) = int fl - 1"
    using n by (simp add: ilog2_of_nat fl_def)
  have u: "pow2 (int fl - 53) = 1 / 2 ^ (53 - fl)"
    using fl1 fl53 by (auto simp: pow2_def nat_diff_distrib intro: arg_cong)
  have q: "(of_nat n :: rat) / (1 / 2 ^ (53 - fl)) = of_int (int n * 2 ^ (53 - fl))"
    by simp
  have r: "round_half_even (of_nat n / pow2 (int fl - 53)) = int n * 2 ^ (53 - fl)"
    unfolding u q by (rule round_half_even_of_int)
  have bk: "(of_int (int n * 2 ^ (53 - fl)) :: rat) * pow2 (int fl - 53) = of_nat n"
    unfolding u by simp
  show ?thesis
    using n fl1 fl53
    unfolding RoundToDouble_def Let_def
    by (simp add: e r bk del: of_int_mult of_int_power)
qed

lemma minus_one_of_nat:
  assumes "1 \<le> i" and "i \<le> 2 ^ 53"
  shows "minus_one (Fin (of_nat i)) = Fin (of_nat (i - 1))"
proof -
  have eq: "(of_nat i :: rat) - 1 = of_nat (i - 1)"
    using assms(1) by (simp add: of_nat_diff)
  have lt: "i - 1 < 2 ^ 53"
    using assms by simp
  show ?thesis
    unfolding minus_one_def by (simp only: jsnum.case eq RoundToDouble_of_nat [OF lt])
qed

lemma array_index_of_nat:
  "array_index len (Fin (of_nat k)) = (if k < len then Some k else None)"
  by (simp add: array_index_def)



lemma isInteger_of_nat: "isInteger (Fin (of_nat i))"
  by (simp add: isInteger_def)

lemma less_than_one_of_nat: "less_than_one (Fin (of_nat i)) = (i = 0)"
  by (simp add: less_than_one_def)

lemma splice_of_nat:
  "splice_js xs (Fin (of_nat k)) 1 =
     (if k < length xs then ([xs ! k], take k xs @ drop (Suc k) xs) else ([], xs))"
proof (cases "k < length xs")
  case True
  then have "take 1 (drop k xs) = [xs ! k]"
    by (simp add: take_Suc_conv_app_nth hd_drop_conv_nth take_Suc)
  with True show ?thesis
    by (simp add: splice_js_def ToIntegerOrInfinity_def Let_def min_def)
next
  case False
  then show ?thesis
    by (simp add: splice_js_def ToIntegerOrInfinity_def Let_def min_def)
qed

lemma numbered_snoc:
  "numbered 0 (xs @ [t]) = numbered 0 xs @ [decimal (length xs + 1) @ ''. '' @ t]"
  by (simp add: numbered_def enumerate_append_eq)

lemma numbered_Nil_iff: "numbered i xs = [] \<longleftrightarrow> xs = []"
  by (cases xs) (simp_all add: numbered_def)

lemma join_snoc: "join sep (ys @ [z]) = (if ys = [] then z else join sep ys @ sep @ z)"
  by (induction sep ys rule: join.induct) auto

lemma formatList_snoc:
  "formatList (xs @ [t]) =
     (if xs = [] then [] else formatList xs @ nl) @ decimal (length xs + 1) @ ''. '' @ t"
  by (simp add: formatList_def numbered_snoc join_snoc numbered_Nil_iff)

lemma prettyList_formatList: "prettyList xs = formatList xs"
  by (simp add: prettyList_def formatList_def)

lemma get_set_list:
  "get_list l (set_list l xs db) = xs"
  by (simp add: get_list_def set_list_def)

lemma get_set_list_other:
  "(l = ''weekday'') \<noteq> (l' = ''weekday'') \<Longrightarrow> get_list l' (set_list l xs db) = get_list l' db"
  by (auto simp: get_list_def set_list_def)

lemma truthy_json_of_doc: "truthy (json_of_doc d)"
  by (simp add: truthy_def json_of_doc_def)

lemma getData_fetch_latest:
  "getData (fetch_latest (json_of_doc d) k) =
     (if k = Up then (json_of_doc d, []) else (json_of_doc default_doc, [Log FetchFailed]))"
  by (cases k) (simp_all add: getData_def fetch_latest_def record_of_def truthy_json_of_doc)

lemma stored_simps:
  "stored [] = []"
  "stored (Get # es) = stored es"
  "stored (Read # es) = stored es"
  "stored (Log x # es) = stored es"
  "stored (Send s # es) = stored es"
  "stored (Put j # es) = j # stored es"
  "stored (Write j # es) = j # stored es"
  "stored (es @ fs) = stored es @ stored fs"
  by (simp_all add: stored_def)

lemma stored_saveData: "stored (saveData d p) = [json_of_doc d]"
  by (cases p rule: put_outcome.exhaust; simp add: saveData_def stored_simps split: option.splits)

lemma sent_simps:
  "sent [] = []"
  "sent (Get # es) = sent es"
  "sent (Read # es) = sent es"
  "sent (Log x # es) = sent es"
  "sent (Put j # es) = sent es"
  "sent (Write j # es) = sent es"
  "sent (Send s # es) = s # sent es"
  "sent (es @ fs) = sent es @ sent fs"
  by (simp_all add: sent_def)

lemma sent_saveData: "sent (saveData d p) = []"
  by (cases p rule: put_outcome.exhaust; simp add: saveData_def sent_simps split: option.splits)

lemma logged_saveData:
  "logged (saveData d p) =
     [case p of PutThrows \<Rightarrow> SaveFailed | PutNotOk None \<Rightarrow> SaveFailed
      | PutNotOk (Some e) \<Rightarrow> SaveRejected e | PutOk \<Rightarrow> SaveOk]"
  by (cases p rule: put_outcome.exhaust; simp add: saveData_def logged_def split: option.splits)

lemma switch_cmd_sent_stored:
  "map_option sent (switch_cmd t db p) = map_option sent (switch_cmd t db q) \<and>
   map_option stored (switch_cmd t db p) = map_option stored (switch_cmd t db q)"
  by (simp add: switch_cmd_def Let_def sent_simps sent_saveData stored_simps stored_saveData
      sendTelegram_def split: option.split prod.split)

lemma join_Cons: "ys \<noteq> [] \<Longrightarrow> join sep (x # ys) = x @ sep @ join sep ys"
  by (cases ys) simp_all

lemma join_split: "join [c] (split c s) = s"
proof (induction s)
  case Nil
  show ?case by simp
next
  case (Cons x xs)
  show ?case
  proof (cases "x = c")
    case True
    then show ?thesis
      using Cons.IH by (simp add: join_Cons split_not_Nil)
  next
    case False
    obtain y ys where sp: "split c xs = y # ys"
      using split_not_Nil [of c xs] by (cases "split c xs") auto
    have "join [c] ((x # y) # ys) = x # join [c] (y # ys)"
      by (cases ys) simp_all
    with False sp Cons.IH show ?thesis
      by simp
  qed
qed

lemma split_no_separator: "p \<in> set (split c s) \<Longrightarrow> c \<notin> set p"
proof (induction s arbitrary: p)
  case Nil
  then show ?case by simp
next
  case (Cons x xs)
  show ?case
  proof (cases "x = c")
    case True
    with Cons show ?thesis by auto
  next
    case False
    obtain y ys where sp: "split c xs = y # ys"
      using split_not_Nil [of c xs] by (cases "split c xs") auto
    have "c \<notin> set y" and "\<And>q. q \<in> set ys \<Longrightarrow> c \<notin> set q"
      using Cons.IH sp by auto
    with Cons.prems False sp show ?thesis
      by auto
  qed
qed

lemma element_Cons_Suc: "element (c # args) (Suc k) = element args k"
  by (simp add: element_def)

lemma switch_cmd_parts:
  assumes "parts_of t = c # args" and "parts_of t' = c' # args"
    and "toLowerCase c = toLowerCase c'"
  shows "switch_cmd t db p = switch_cmd t' db p"
    and "handleCommand_lowdb t fromId db env = handleCommand_lowdb t' fromId db env"
proof -
  have e1: "element (c # args) 1 = element args 0" "element (c' # args) 1 = element args 0"
    by (simp_all add: element_def)
  have e2: "element (c # args) 2 = element args 1" "element (c' # args) 2 = element args 1"
    by (simp_all add: element_def)
  have r: "rest_text 2 (c # args) = rest_text 1 args" "rest_text 2 (c' # args) = rest_text 1 args"
    "rest_text 3 (c # args) = rest_text 2 args" "rest_text 3 (c' # args) = rest_text 2 args"
    by (simp_all add: rest_text_def numeral_2_eq_2 numeral_3_eq_3)
  show "switch_cmd t db p = switch_cmd t' db p"
    unfolding switch_cmd_def assms(1,2) Let_def list.sel e1 e2 r assms(3) ..
  show "handleCommand_lowdb t fromId db env = handleCommand_lowdb t' fromId db env"
    unfolding handleCommand_lowdb_def assms(1,2) Let_def list.sel e1 e2 r assms(3) ..
qed

lemma match_len_le: "match_len ws s \<le> length s"
proof (cases "List.find (\<lambda>w. take (length w) s = w) ws")
  case None
  then show ?thesis by (simp add: match_len_def)
next
  case (Some w)
  then have "take (length w) s = w" by (auto simp: find_Some_iff)
  then have "length w = min (length s) (length w)" by (metis length_take)
  then have "length w \<le> length s" by simp
  with Some show ?thesis by (simp add: match_len_def)
qed

lemma strip_clean: "match_len ws (strip ws s) = 0"
  by (induction ws s rule: strip.induct) (subst strip.simps, simp)

lemma strip_id: "match_len ws s = 0 \<Longrightarrow> strip ws s = s"
  by (subst strip.simps) simp

lemma strip_suffix: "\<exists>p. s = p @ strip ws s"
proof (induction ws s rule: strip.induct)
  case (1 ws s)
  show ?case
  proof (cases "match_len ws s = 0")
    case True
    then show ?thesis by (simp add: strip_id)
  next
    case False
    then obtain p where "drop (match_len ws s) s = p @ strip ws (drop (match_len ws s) s)"
      using 1 by blast
    then have "s = (take (match_len ws s) s @ p) @ strip ws (drop (match_len ws s) s)"
      by (metis append_assoc append_take_drop_id)
    moreover have "strip ws s = strip ws (drop (match_len ws s) s)"
      using False by (subst strip.simps) simp
    ultimately show ?thesis by metis
  qed
qed

lemma match_len_prefix:
  assumes "match_len ws (a @ b) = 0" and "[] \<notin> set ws"
  shows "match_len ws a = 0"
proof (rule ccontr)
  assume "match_len ws a \<noteq> 0"
  then obtain w where w: "List.find (\<lambda>w. take (length w) a = w) ws = Some w"
    by (auto simp: match_len_def split: option.splits)
  then have wa: "take (length w) a = w" and win: "w \<in> set ws"
    by (auto simp: find_Some_iff)
  from wa have "length w = min (length a) (length w)"
    by (metis length_take)
  then have "length w \<le> length a"
    by simp
  with wa have "take (length w) (a @ b) = w"
    by simp
  with win have "List.find (\<lambda>w. take (length w) (a @ b) = w) ws \<noteq> None"
    by (auto simp: find_None_iff)
  then obtain v where v: "List.find (\<lambda>w. take (length w) (a @ b) = w) ws = Some v"
    by auto
  then have "v \<in> set ws"
    by (auto simp: find_Some_iff)
  with assms(2) have "v \<noteq> []"
    by auto
  with v assms(1) show False
    by (simp add: match_len_def)
qed

lemma white_space_no_Nil: "[] \<notin> set white_space" "[] \<notin> set (map rev white_space)"
  by (simp_all add: white_space_def)

lemma trim_idem: "trim (trim s) = trim s"
proof -
  define a where "a = strip white_space s"
  define c where "c = strip (map rev white_space) (rev a)"
  obtain p where p: "rev a = p @ c"
    unfolding c_def using strip_suffix by blast
  then have a: "a = rev c @ rev p"
    by (metis rev_append rev_rev_ident)
  have "match_len white_space a = 0"
    unfolding a_def by (rule strip_clean)
  then have "match_len white_space (rev c) = 0"
    unfolding a by (rule match_len_prefix) (rule white_space_no_Nil)
  then have 1: "strip white_space (rev c) = rev c"
    by (rule strip_id)
  have "match_len (map rev white_space) c = 0"
    unfolding c_def by (rule strip_clean)
  then have 2: "strip (map rev white_space) c = c"
    by (rule strip_id)
  have t: "trim s = rev c"
    by (simp add: trim_def a_def c_def)
  show ?thesis
    unfolding t by (simp add: trim_def 1 2)
qed

lemma rest_text_trimmed: "trim (rest_text k parts) = rest_text k parts"
  by (simp add: rest_text_def trim_idem)

lemma trim_Nil: "trim [] = []"
  by code_simp

lemma doc_ok_default: "doc_ok default_doc"
  by (simp add: doc_ok_def default_doc_def)

lemma doc_ok_set_list:
  assumes "doc_ok db" and "\<forall>x \<in> set ys. trim x \<noteq> []"
  shows "doc_ok (set_list l ys db)"
  using assms by (simp add: doc_ok_def set_list_def)

lemma doc_ok_get_list: "doc_ok db \<Longrightarrow> x \<in> set (get_list l db) \<Longrightarrow> trim x \<noteq> []"
  by (simp add: doc_ok_def get_list_def split: if_splits)

lemma set_splice_js: "set (snd (splice_js xs start count)) \<subseteq> set xs"
proof -
  have "set (take a xs @ drop b xs) \<subseteq> set xs" for a b
    using set_take_subset [of a xs] set_drop_subset [of b xs] by auto
  then show ?thesis
    by (simp add: splice_js_def Let_def)
qed

lemma doc_ok_add:
  assumes "doc_ok db" and "rest_text k parts \<noteq> []"
  shows "doc_ok (set_list l (get_list l db @ [rest_text k parts]) db)"
  using assms
  by (intro doc_ok_set_list) (auto simp: rest_text_trimmed dest: doc_ok_get_list)

lemma doc_ok_edit:
  assumes "doc_ok db" and "rest_text k parts \<noteq> []"
  shows "doc_ok (set_list l ((get_list l db)[i := rest_text k parts]) db)"
proof (intro doc_ok_set_list assms(1) ballI)
  fix x
  assume "x \<in> set ((get_list l db)[i := rest_text k parts])"
  then have "x = rest_text k parts \<or> x \<in> set (get_list l db)"
    using set_update_subset_insert [of "get_list l db" i "rest_text k parts"] by auto
  then show "trim x \<noteq> []"
    using assms by (auto simp: rest_text_trimmed dest: doc_ok_get_list)
qed

lemma doc_ok_remove:
  assumes "doc_ok db" and "splice_js (get_list l db) start count = (item, rest)"
  shows "doc_ok (set_list l rest db)"
proof (intro doc_ok_set_list assms(1) ballI)
  fix x
  assume "x \<in> set rest"
  then have "x \<in> set (get_list l db)"
    using set_splice_js [of "get_list l db" start count] assms(2) by auto
  then show "trim x \<noteq> []"
    using assms(1) by (rule doc_ok_get_list [rotated])
qed

lemma switch_cmd_stored_ok:
  assumes "doc_ok db" and "switch_cmd t db p = Some es" and "j \<in> set (stored es)"
  shows "\<exists>d. j = json_of_doc d \<and> doc_ok d"
  using assms(2,3) doc_ok_add [OF assms(1)] doc_ok_edit [OF assms(1)] doc_ok_remove [OF assms(1)]
  by (auto simp: switch_cmd_def Let_def stored_simps stored_saveData sendTelegram_def
      split: if_splits option.splits prod.splits)

lemma handleCommand_lowdb_stored_ok:
  assumes "doc_ok db" and "handleCommand_lowdb t fromId db env = Some (es, st)"
    and "j \<in> set (stored es)"
  shows "\<exists>d. j = json_of_doc d \<and> doc_ok d"
  using assms(2,3) doc_ok_add [OF assms(1)] doc_ok_edit [OF assms(1)] doc_ok_remove [OF assms(1)]
  by (auto simp: handleCommand_lowdb_def Let_def stored_simps sendTelegram_def db_read_def
      db_write_def split: if_splits option.splits prod.splits)

lemma handleCommand_stored_ok:
  assumes ok: "doc_ok d"
    and h: "handleCommand CHAT_ID t fromId (fetch_latest (json_of_doc d) k) p = Some es"
    and j: "j \<in> set (stored es)"
  shows "\<exists>d'. j = json_of_doc d' \<and> doc_ok d'"
proof (cases "String_int fromId \<noteq> CHAT_ID")
  case True
  with h j show ?thesis
    by (simp add: handleCommand_def stored_simps)
next
  case False
  define db where "db = (if k = Up then d else default_doc)"
  define lg where "lg = (if k = Up then [] else [Log FetchFailed])"
  have g: "getData (fetch_latest (json_of_doc d) k) = (json_of_doc db, lg)"
    by (simp add: getData_fetch_latest db_def lg_def)
  have dbok: "doc_ok db"
    using ok by (simp add: db_def doc_ok_default)
  from h False obtain es' where es': "switch_cmd t db p = Some es'" and es: "es = Get # lg @ es'"
    by (auto simp: handleCommand_def g as_doc_json_of_doc)
  have "stored es = stored es'"
    by (simp add: es lg_def stored_simps)
  with j have "j \<in> set (stored es')"
    by simp
  with dbok es' show ?thesis
    by (rule switch_cmd_stored_ok)
qed

lemma step_bin_ok:
  assumes "doc_ok d"
  shows "\<exists>d'. step_bin CHAT_ID (json_of_doc d) r = json_of_doc d' \<and> doc_ok d'"
proof (cases "handleCommand CHAT_ID (req_text r) (req_from r)
    (fetch_latest (json_of_doc d) (req_get r)) (req_put r)")
  case None
  with assms show ?thesis
    by (auto simp: step_bin_def)
next
  case (Some es)
  show ?thesis
  proof (cases "req_put r = PutOk \<and> stored es \<noteq> []")
    case True
    then have "last (json_of_doc d # stored es) \<in> set (stored es)"
      by simp
    then obtain d' where "last (json_of_doc d # stored es) = json_of_doc d'" and "doc_ok d'"
      using handleCommand_stored_ok [OF assms Some] by blast
    with True Some show ?thesis
      by (auto simp: step_bin_def)
  next
    case False
    with Some assms show ?thesis
      by (auto simp: step_bin_def)
  qed
qed

lemma step_file_ok:
  assumes "doc_ok d"
  shows "\<exists>d'. step_file (json_of_doc d) r = json_of_doc d' \<and> doc_ok d'"
proof (cases "handleCommand_lowdb (lreq_text r) (lreq_from r) d (lreq_env r)")
  case None
  with assms show ?thesis
    by (auto simp: step_file_def as_doc_json_of_doc)
next
  case (Some res)
  obtain es st where res: "res = (es, st)"
    by (cases res)
  show ?thesis
  proof (cases "write_ok (lreq_env r) \<and> stored es \<noteq> []")
    case True
    then have "last (json_of_doc d # stored es) \<in> set (stored es)"
      by simp
    then obtain d' where "last (json_of_doc d # stored es) = json_of_doc d'" and "doc_ok d'"
      using handleCommand_lowdb_stored_ok [OF assms Some [unfolded res]] by blast
    with True Some res show ?thesis
      by (auto simp: step_file_def as_doc_json_of_doc)
  next
    case False
    with Some res assms show ?thesis
      by (auto simp: step_file_def as_doc_json_of_doc)
  qed
qed

lemma reachable_bin_ok: "reachable_bin CHAT_ID bin \<Longrightarrow> \<exists>d. bin = json_of_doc d \<and> doc_ok d"
proof (induction rule: reachable_bin.induct)
  case bin_init
  show ?case
    using doc_ok_default by blast
next
  case (bin_step bin r)
  then show ?case
    using step_bin_ok by blast
qed

lemma reachable_file_ok: "reachable_file file \<Longrightarrow> \<exists>d. file = json_of_doc d \<and> doc_ok d"
proof (induction rule: reachable_file.induct)
  case file_init
  show ?case
    using doc_ok_default by blast
next
  case (file_step f r)
  then show ?case
    using step_file_ok by blast
qed

lemma json_of_doc_inject: "json_of_doc d = json_of_doc d' \<Longrightarrow> d = d'"
  by (metis as_doc_json_of_doc option.inject)

lemma split_prefix: "c \<notin> set a \<Longrightarrow> split c (a @ c # s) = a # split c s"
  by (induction a) auto

lemma match_len_0_iff:
  assumes "[] \<notin> set ws"
  shows "match_len ws s = 0 \<longleftrightarrow> (\<forall>w \<in> set ws. take (length w) s \<noteq> w)"
proof (cases "List.find (\<lambda>w. take (length w) s = w) ws")
  case None
  then have "match_len ws s = 0"
    by (simp add: match_len_def)
  moreover have "\<forall>w \<in> set ws. take (length w) s \<noteq> w"
    using None by (simp add: find_None_iff)
  ultimately show ?thesis
    by simp
next
  case (Some v)
  then have "v \<in> set ws" "take (length v) s = v"
    by (auto simp: find_Some_iff)
  with Some assms show ?thesis
    by (auto simp: match_len_def)
qed

lemma trim_clean:
  "match_len white_space (trim s) = 0" "match_len (map rev white_space) (rev (trim s)) = 0"
proof -
  define a where "a = strip white_space s"
  define c where "c = strip (map rev white_space) (rev a)"
  obtain p where p: "rev a = p @ c"
    unfolding c_def using strip_suffix by blast
  then have a: "a = rev c @ rev p"
    by (metis rev_append rev_rev_ident)
  have t: "trim s = rev c"
    by (simp add: trim_def a_def c_def)
  have "match_len white_space a = 0"
    unfolding a_def by (rule strip_clean)
  then show "match_len white_space (trim s) = 0"
    unfolding a t by (rule match_len_prefix) (rule white_space_no_Nil)
  show "match_len (map rev white_space) (rev (trim s)) = 0"
    unfolding t c_def by (simp add: strip_clean)
qed

lemma trim_fixed:
  assumes "match_len white_space s = 0" and "match_len (map rev white_space) (rev s) = 0"
  shows "trim s = s"
  using assms by (simp add: trim_def strip_id)

lemma space_after_no_match:
  assumes "match_len (map rev white_space) u = 0" and "u \<noteq> []"
  shows "match_len (map rev white_space) (u @ CHR '' '' # q) = 0"
proof -
  have n: "[] \<notin> set (map rev white_space)"
    by (rule white_space_no_Nil)
  have h: "\<forall>w \<in> set (map rev white_space). take (length w) u \<noteq> w"
    using assms(1) by (simp only: match_len_0_iff [OF n])
  have "\<forall>w \<in> set (map rev white_space). take (length w) (u @ CHR '' '' # q) \<noteq> w"
  proof (cases u)
    case Nil
    with assms(2) show ?thesis by simp
  next
    case (Cons a u1)
    show ?thesis
    proof (cases u1)
      case Nil
      with Cons h show ?thesis
        by (simp add: white_space_def)
    next
      case (Cons b u2)
      note c2 = this
      show ?thesis
      proof (cases u2)
        case Nil
        with c2 \<open>u = a # u1\<close> h show ?thesis
          by (simp add: white_space_def)
      next
        case (Cons c u3)
        with c2 \<open>u = a # u1\<close> h show ?thesis
          by (simp add: white_space_def)
      qed
    qed
  qed
  then show ?thesis
    by (simp only: match_len_0_iff [OF n])
qed

lemma add_line_parts:
  assumes l: "l = ''weekday'' \<or> l = ''weekend''"
    and t: "trim t = t" "t \<noteq> []"
    and line: "line = ''/add '' @ l @ '' '' @ t"
  shows "toLowerCase (hd (parts_of line)) = ''/add''"
    and "element (parts_of line) 1 = Some l"
    and "rest_text 2 (parts_of line) = t"
proof -
  have front: "match_len white_space line = 0"
    unfolding line by (simp add: match_len_def white_space_def)
  have "match_len (map rev white_space) (rev t) = 0"
    using trim_clean(2) [of t] t(1) by simp
  then have "match_len (map rev white_space) (rev t @ CHR '' '' # rev (''/add '' @ l)) = 0"
    using t(2) by (intro space_after_no_match) simp_all
  then have rear: "match_len (map rev white_space) (rev line) = 0"
    unfolding line by simp
  have tr: "trim line = line"
    using front rear by (rule trim_fixed)
  have sl: "CHR '' '' \<notin> set l"
    using l by auto
  have "line = ''/add'' @ CHR '' '' # (l @ CHR '' '' # t)"
    unfolding line by simp
  then have "split CHR '' '' line = ''/add'' # split CHR '' '' (l @ CHR '' '' # t)"
    by (simp only: split_prefix) simp
  also have "split CHR '' '' (l @ CHR '' '' # t) = l # split CHR '' '' t"
    using sl by (rule split_prefix)
  finally have p: "parts_of line = ''/add'' # l # split CHR '' '' t"
    by (simp add: parts_of_def tr)
  show "toLowerCase (hd (parts_of line)) = ''/add''"
    unfolding p by (simp add: toLowerCase_def lower_char_def)
  show "element (parts_of line) 1 = Some l"
    unfolding p by (simp add: element_def)
  show "rest_text 2 (parts_of line) = t"
    unfolding p using join_split [of "CHR '' ''" t] by (simp add: rest_text_def t(1))
qed

section \<open>Authorization\<close>

text \<open>
  Claim C5. A sender whose identity, as \<open>String\<close> prints it, is not the configured
  \<open>CHAT_ID\<close> gets nothing done: \<open>handleCommand\<close> of part_000 returns with no effect at all,
  whatever the command line and whatever the store would answer, so the check precedes
  the parsing and the GET; its webhook only writes the console line of the incoming
  update. The webhook of index.js answers before it calls \<open>handleCommand\<close>, with no effect.
  No message is sent and nothing is stored.
\<close>

theorem unauthorized_dropped:
  assumes "String_int fromId \<noteq> CHAT_ID" and "message_from u = Some fromId"
  shows "handleCommand CHAT_ID t fromId g p = Some [] \<and>
         webhook CHAT_ID u g p = Some ([Log Incoming], 200, ''ok'') \<and>
         webhook_lowdb CHAT_ID u file env =
           Some ([], 200, if has_text u then ''ignored'' else ''ok'')"
  using assms by (simp add: handleCommand_def webhook_def webhook_lowdb_def)

theorem unauthorized_dropped_witness:
  "String_int 7 \<noteq> ''42'' \<and>
   message_from \<lparr>message_text = Some ''/add weekday Buy milk'', message_from = Some 7\<rparr> = Some 7 \<and>
   handleCommand ''42'' ''/add weekday Buy milk'' 7 GetThrows PutOk = Some [] \<and>
   webhook ''42'' \<lparr>message_text = Some ''/add weekday Buy milk'', message_from = Some 7\<rparr>
     GetThrows PutOk = Some ([Log Incoming], 200, ''ok'') \<and>
   webhook_lowdb ''42'' \<lparr>message_text = Some ''/add weekday Buy milk'', message_from = Some 7\<rparr>
     default_doc \<lparr>read_ok = True, write_ok = True\<rparr> = Some ([], 200, ''ignored'')"
proof -
  have h: "String_int 7 \<noteq> ''42''"
    by code_simp
  have m: "message_from \<lparr>message_text = Some ''/add weekday Buy milk'', message_from = Some 7\<rparr>
    = Some 7"
    by simp
  show ?thesis
    using h m unauthorized_dropped [OF h m, of "''/add weekday Buy milk''" GetThrows PutOk
        default_doc "\<lparr>read_ok = True, write_ok = True\<rparr>"]
    by (simp add: has_text_def)
qed

section \<open>Adding a task\<close>

text \<open>
  Claim C2. A command line whose first part is \<open>/add\<close> in any case, whose second part is
  one of the two list names and whose remaining parts, joined by spaces and trimmed, give
  a task that is not empty, appends that task to the end of the named list. In part_000 the
  list it appends to is the one \<open>getData\<close> returned (the stored one, or the empty default
  when the GET failed), and the document is PUT; once the PUT is answered ok the store
  holds it, and a \<open>/view\<close> of the same list that reads the store renders the task as the
  last numbered line. In index.js the same holds of the lowdb file when the read and the
  write succeed. The line \<open>/add\<close>, list name and a trimmed text \<open>t\<close> that is not empty,
  separated by single spaces, is such a line, and its task is \<open>t\<close> (\<open>add_line_parts\<close>).
\<close>

theorem add_then_view:
  assumes cmd: "toLowerCase (hd (parts_of t)) = ''/add''"
    and l: "element (parts_of t) 1 = Some l" "l = ''weekday'' \<or> l = ''weekend''"
    and task: "task = rest_text 2 (parts_of t)" "task \<noteq> []"
    and view: "toLowerCase (hd (parts_of t')) = ''/view''" "element (parts_of t') 1 = Some l"
    and auth: "String_int fromId = CHAT_ID"
    and r: "r = \<lparr>req_text = t, req_from = fromId, req_get = k, req_put = PutOk\<rparr>"
    and db: "db = (if k = Up then db0 else default_doc)"
    and db': "db' = set_list l (get_list l db @ [task]) db"
    and lr: "lr = \<lparr>lreq_text = t, lreq_from = fromId, lreq_env = env\<rparr>"
    and ldb': "ldb' = set_list l (get_list l db0 @ [task]) db0"
    and env: "read_ok env" "write_ok env"
  shows "handleCommand CHAT_ID t fromId (fetch_latest (json_of_doc db0) k) PutOk =
           Some (Get # snd (getData (fetch_latest (json_of_doc db0) k)) @
                 saveData db' PutOk @ [Send (added_text l task)]) \<and>
         step_bin CHAT_ID (json_of_doc db0) r = json_of_doc db' \<and>
         handleCommand CHAT_ID t' fromId (fetch_latest (step_bin CHAT_ID (json_of_doc db0) r) Up) p =
           Some [Get, Send (view_text l (get_list l db @ [task]))] \<and>
         view_text l (get_list l db @ [task]) =
           ''*'' @ l @ ''*'' @ nl @
           (if get_list l db = [] then [] else formatList (get_list l db) @ nl) @
           decimal (length (get_list l db) + 1) @ ''. '' @ task \<and>
         handleCommand_lowdb t fromId db0 env =
           Some ([Read, Write (json_of_doc ldb'), Send (added_text_lowdb l task)], Returned) \<and>
         step_file (json_of_doc db0) lr = json_of_doc ldb' \<and>
         handleCommand_lowdb t' fromId ldb' env =
           Some ([Read, Send (view_text_lowdb l (get_list l db0 @ [task]))], Returned) \<and>
         view_text_lowdb l (get_list l db0 @ [task]) =
           ''*'' @ l @ ''*'' @ nl @
           (if get_list l db0 = [] then [] else prettyList (get_list l db0) @ nl) @
           decimal (length (get_list l db0) + 1) @ ''. '' @ task"
proof -
  have v: "valid_list (Some l)"
    using l(2) by (auto simp: valid_list_def)
  have sw: "switch_cmd t d q = Some (saveData (set_list l (get_list l d @ [task]) d) q @
              [Send (added_text l task)])" for d q
    using task(2)
    by (simp add: switch_cmd_def Let_def cmd l(1) v task(1) [symmetric] sendTelegram_def
        del: One_nat_def)
  have vw: "switch_cmd t' d q = Some [Send (view_text l (get_list l d))]" for d q
    by (simp add: switch_cmd_def Let_def view v sendTelegram_def del: One_nat_def)
  have a: "handleCommand CHAT_ID t fromId (fetch_latest (json_of_doc db0) k) PutOk =
           Some (Get # snd (getData (fetch_latest (json_of_doc db0) k)) @
                 saveData db' PutOk @ [Send (added_text l task)])"
    by (simp add: handleCommand_def auth getData_fetch_latest as_doc_json_of_doc sw db' db)
  have b: "step_bin CHAT_ID (json_of_doc db0) r = json_of_doc db'"
    by (simp add: step_bin_def r a stored_simps stored_saveData)
  have c: "handleCommand CHAT_ID t' fromId (fetch_latest (json_of_doc db') Up) p =
           Some [Get, Send (view_text l (get_list l db @ [task]))]"
    by (simp add: handleCommand_def auth getData_fetch_latest as_doc_json_of_doc vw db'
        get_set_list)
  have d: "handleCommand_lowdb t fromId db0 env =
           Some ([Read, Write (json_of_doc ldb'), Send (added_text_lowdb l task)], Returned)"
    using task(2) env
    by (simp add: handleCommand_lowdb_def Let_def cmd l(1) v task(1) [symmetric] sendTelegram_def
        db_read_def db_write_def ldb' del: One_nat_def)
  have e: "step_file (json_of_doc db0) lr = json_of_doc ldb'"
    using env by (simp add: step_file_def lr as_doc_json_of_doc d stored_simps)
  have f: "handleCommand_lowdb t' fromId ldb' env =
           Some ([Read, Send (view_text_lowdb l (get_list l db0 @ [task]))], Returned)"
    using env
    by (simp add: handleCommand_lowdb_def Let_def view v sendTelegram_def db_read_def ldb'
        get_set_list del: One_nat_def)
  show ?thesis
    unfolding b
    using a c d e f
    by (simp add: view_text_def view_text_lowdb_def formatList_snoc prettyList_formatList)
qed

theorem add_then_view_witness:
  "toLowerCase (hd (parts_of ''/add weekday Buy milk'')) = ''/add'' \<and>
   rest_text 2 (parts_of ''/add weekday Buy milk'') = ''Buy milk'' \<and>
   String_int 42 = ''42'' \<and>
   step_bin ''42'' (json_of_doc \<lparr>weekday = [''a''], weekend = []\<rparr>)
       \<lparr>req_text = ''/add weekday Buy milk'', req_from = 42, req_get = Up, req_put = PutOk\<rparr> =
     json_of_doc \<lparr>weekday = [''a'', ''Buy milk''], weekend = []\<rparr> \<and>
   handleCommand ''42'' ''/view weekday'' 42
       (fetch_latest
          (step_bin ''42'' (json_of_doc \<lparr>weekday = [''a''], weekend = []\<rparr>)
             \<lparr>req_text = ''/add weekday Buy milk'', req_from = 42, req_get = Up,
                req_put = PutOk\<rparr>) Up) PutOk =
     Some [Get, Send (view_text ''weekday'' [''a'', ''Buy milk''])] \<and>
   view_text ''weekday'' [''a'', ''Buy milk''] = ''*weekday*'' @ nl @ ''1. a'' @ nl @ ''2. Buy milk'' \<and>
   handleCommand_lowdb ''/view weekday'' 42 \<lparr>weekday = [''a'', ''Buy milk''], weekend = []\<rparr>
       \<lparr>read_ok = True, write_ok = True\<rparr> =
     Some ([Read, Send (view_text_lowdb ''weekday'' [''a'', ''Buy milk''])], Returned)"
proof -
  let ?t = "''/add weekday Buy milk''"
  let ?db = "\<lparr>weekday = [''a''], weekend = []\<rparr>"
  let ?env = "\<lparr>read_ok = True, write_ok = True\<rparr>"
  have h1: "toLowerCase (hd (parts_of ?t)) = ''/add''"
    by code_simp
  have h2: "element (parts_of ?t) 1 = Some ''weekday''"
    by code_simp
  have h3: "''weekday'' = ''weekday'' \<or> ''weekday'' = ''weekend''"
    by simp
  have h4: "''Buy milk'' = rest_text 2 (parts_of ?t)"
    by code_simp
  have h5: "''Buy milk'' \<noteq> []"
    by simp
  have h6: "toLowerCase (hd (parts_of ''/view weekday'')) = ''/view''"
    by code_simp
  have h7: "element (parts_of ''/view weekday'') 1 = Some ''weekday''"
    by code_simp
  have h8: "String_int 42 = ''42''"
    by code_simp
  have h9: "\<lparr>req_text = ?t, req_from = 42, req_get = Up, req_put = PutOk\<rparr> =
            \<lparr>req_text = ?t, req_from = 42, req_get = Up, req_put = PutOk\<rparr>"
    by simp
  have h10: "?db = (if Up = Up then ?db else default_doc)"
    by simp
  have h11: "\<lparr>weekday = [''a'', ''Buy milk''], weekend = []\<rparr> =
             set_list ''weekday'' (get_list ''weekday'' ?db @ [''Buy milk'']) ?db"
    by (simp add: set_list_def get_list_def)
  have h12: "\<lparr>lreq_text = ?t, lreq_from = 42, lreq_env = ?env\<rparr> =
             \<lparr>lreq_text = ?t, lreq_from = 42, lreq_env = ?env\<rparr>"
    by simp
  have h13: "read_ok ?env" "write_ok ?env"
    by simp_all
  have g: "get_list ''weekday'' ?db @ [''Buy milk''] = [''a'', ''Buy milk'']"
    by (simp add: get_list_def)
  have vt: "view_text ''weekday'' [''a'', ''Buy milk''] =
            ''*weekday*'' @ nl @ ''1. a'' @ nl @ ''2. Buy milk''"
    by code_simp
  note inst = add_then_view [OF h1 h2 h3 h4 h5 h6 h7 h8 h9 h10 h11 h12 h11 h13, of PutOk,
      unfolded g]
  from inst have a: "step_bin ''42'' (json_of_doc ?db)
       \<lparr>req_text = ?t, req_from = 42, req_get = Up, req_put = PutOk\<rparr> =
     json_of_doc \<lparr>weekday = [''a'', ''Buy milk''], weekend = []\<rparr>"
    by (elim conjE)
  from inst have b: "handleCommand ''42'' ''/view weekday'' 42
       (fetch_latest
          (step_bin ''42'' (json_of_doc ?db)
             \<lparr>req_text = ?t, req_from = 42, req_get = Up, req_put = PutOk\<rparr>) Up) PutOk =
     Some [Get, Send (view_text ''weekday'' [''a'', ''Buy milk''])]"
    by (elim conjE)
  from inst have c: "handleCommand_lowdb ''/view weekday'' 42
       \<lparr>weekday = [''a'', ''Buy milk''], weekend = []\<rparr> ?env =
     Some ([Read, Send (view_text_lowdb ''weekday'' [''a'', ''Buy milk''])], Returned)"
    by (elim conjE)
  from h1 h4 [symmetric] h8 a b vt c show ?thesis
    by (intro conjI)
qed

section \<open>Editing a task\<close>




section \<open>Removing a task\<close>



section \<open>Index validation\<close>

text \<open>
  On index.js the index is validated as the specification has it: an index that
  \<open>Number\<close> does not convert to an integer of at least 1 is answered with the usage line
  before the file is read, and an integer beyond the list is answered as out of range
  with the list as it was (\<open>/remove\<close> writes the unchanged document back).
\<close>

lemma lowdb_index_validation:
  assumes l: "element (parts_of t) 1 = Some l" "l = ''weekday'' \<or> l = ''weekend''"
    and idx: "idx = Number_js (element (parts_of t) 2)"
    and bad: "\<not> isInteger idx \<or> less_than_one idx"
  shows "toLowerCase (hd (parts_of t)) = ''/edit'' \<Longrightarrow>
           handleCommand_lowdb t fromId file env = Some ([Send usage_edit], Returned)"
    and "toLowerCase (hd (parts_of t)) = ''/remove'' \<Longrightarrow>
           handleCommand_lowdb t fromId file env = Some ([Send usage_remove], Returned)"
  using bad
  by (auto simp: handleCommand_lowdb_def Let_def l(1) idx [symmetric] sendTelegram_def
      simp del: One_nat_def)

lemma lowdb_index_beyond:
  assumes l: "element (parts_of t) 1 = Some l" "l = ''weekday'' \<or> l = ''weekend''"
    and idx: "Number_js (element (parts_of t) 2) = Fin (of_nat i)"
    and i: "length (get_list l file) < i" "i < 2 ^ 53"
    and env: "read_ok env" "write_ok env"
  shows "toLowerCase (hd (parts_of t)) = ''/edit'' \<Longrightarrow> rest_text 3 (parts_of t) \<noteq> [] \<Longrightarrow>
           handleCommand_lowdb t fromId file env = Some ([Read, Send out_of_range_lowdb], Returned)"
    and "toLowerCase (hd (parts_of t)) = ''/remove'' \<Longrightarrow>
           handleCommand_lowdb t fromId file env =
             Some ([Read, Write (json_of_doc file), Send out_of_range_lowdb], Returned)"
proof -
  have i1: "1 \<le> i" "i \<le> 2 ^ 53"
    using i by simp_all
  have m: "minus_one (Fin (of_nat i)) = Fin (of_nat (i - 1))"
    using i1 by (rule minus_one_of_nat)
  have ai: "array_index (length (get_list l file)) (Fin (of_nat (i - 1))) = None"
    using i by (simp add: array_index_of_nat del: One_nat_def of_nat_diff)
  have sp: "splice_js (get_list l file) (Fin (of_nat (i - 1))) 1 = ([], get_list l file)"
    using i by (simp add: splice_of_nat del: One_nat_def of_nat_diff)
  have v: "valid_list (Some l)"
    using l(2) by (auto simp: valid_list_def)
  have same: "set_list l (get_list l file) file = file"
    by (simp add: set_list_def get_list_def)
  show "toLowerCase (hd (parts_of t)) = ''/edit'' \<Longrightarrow> rest_text 3 (parts_of t) \<noteq> [] \<Longrightarrow>
           handleCommand_lowdb t fromId file env = Some ([Read, Send out_of_range_lowdb], Returned)"
    using i1(1) env
    by (simp add: handleCommand_lowdb_def Let_def l(1) v idx isInteger_of_nat
        less_than_one_of_nat m ai sendTelegram_def db_read_def del: One_nat_def of_nat_diff)
  show "toLowerCase (hd (parts_of t)) = ''/remove'' \<Longrightarrow>
           handleCommand_lowdb t fromId file env =
             Some ([Read, Write (json_of_doc file), Send out_of_range_lowdb], Returned)"
    using i1(1) env
    by (simp add: handleCommand_lowdb_def Let_def l(1) v idx isInteger_of_nat
        less_than_one_of_nat m sp same sendTelegram_def db_read_def db_write_def
        del: One_nat_def of_nat_diff)
qed

text \<open>
  Claim C1 fails on part_000, whose test \<open>!idx\<close> only catches zero and NaN. A negative
  index reaches \<open>splice\<close>, which counts it from the end: \<open>/remove weekday -1\<close> on a list of
  three removes the second entry, stores the shorter list and confirms the removal. A
  fraction is truncated by \<open>splice\<close>: \<open>/remove weekday 1.5\<close> removes the first entry. For
  \<open>/edit\<close> a fraction is answered as out of range, not with the usage line. On the same
  inputs index.js answers with the usage line and touches nothing.
\<close>

theorem remove_negative_index:
  "Number_js (element (parts_of ''/remove weekday -1'') 2) = Fin (- 1) \<and>
   switch_cmd ''/remove weekday -1'' \<lparr>weekday = [''a'', ''b'', ''c''], weekend = []\<rparr> PutOk =
     Some [Put (json_of_doc \<lparr>weekday = [''a'', ''c''], weekend = []\<rparr>), Log SaveOk,
           Send (removed_text ''weekday'' ''b'')] \<and>
   Number_js (element (parts_of ''/remove weekday 1.5'') 2) = Fin (3 / 2) \<and>
   switch_cmd ''/remove weekday 1.5'' \<lparr>weekday = [''a'', ''b'', ''c''], weekend = []\<rparr> PutOk =
     Some [Put (json_of_doc \<lparr>weekday = [''b'', ''c''], weekend = []\<rparr>), Log SaveOk,
           Send (removed_text ''weekday'' ''a'')] \<and>
   switch_cmd ''/edit weekday 1.5 x'' \<lparr>weekday = [''a'', ''b'', ''c''], weekend = []\<rparr> PutOk =
     Some [Send out_of_range] \<and>
   handleCommand_lowdb ''/remove weekday -1'' 42 \<lparr>weekday = [''a'', ''b'', ''c''], weekend = []\<rparr>
       \<lparr>read_ok = True, write_ok = True\<rparr> =
     Some ([Send usage_remove], Returned) \<and>
   handleCommand_lowdb ''/remove weekday 1.5'' 42 \<lparr>weekday = [''a'', ''b'', ''c''], weekend = []\<rparr>
       \<lparr>read_ok = True, write_ok = True\<rparr> =
     Some ([Send usage_remove], Returned) \<and>
   handleCommand_lowdb ''/edit weekday 1.5 x'' 42 \<lparr>weekday = [''a'', ''b'', ''c''], weekend = []\<rparr>
       \<lparr>read_ok = True, write_ok = True\<rparr> =
     Some ([Send usage_edit], Returned)"
  by code_simp

theorem remove_negative_index_witness:
  "handleCommand ''42'' ''/remove weekday -1'' 42
       (GetJson (JObj [(''record'', json_of_doc \<lparr>weekday = [''a'', ''b'', ''c''], weekend = []\<rparr>)]))
       PutOk =
     Some [Get, Put (json_of_doc \<lparr>weekday = [''a'', ''c''], weekend = []\<rparr>), Log SaveOk,
           Send (removed_text ''weekday'' ''b'')]"
proof -
  have a: "String_int 42 = ''42''"
    by code_simp
  have g: "getData (GetJson (JObj [(''record'',
             json_of_doc \<lparr>weekday = [''a'', ''b'', ''c''], weekend = []\<rparr>)])) =
           (json_of_doc \<lparr>weekday = [''a'', ''b'', ''c''], weekend = []\<rparr>, [])"
    by (simp add: getData_def record_of_def truthy_json_of_doc)
  show ?thesis
    using remove_negative_index
    by (simp add: handleCommand_def a g as_doc_json_of_doc)
qed

section \<open>Loading the document\<close>

text \<open>
  Claim C7, as amended. \<open>getData\<close> never fails outward. It returns the default document,
  with both lists present and empty, on a transport error, on a body that is not JSON and
  whenever the response carries no record or a falsy one; the catch writes a console line
  in the first two cases. A truthy record is returned as it is, whatever its shape.
  \<open>initDB\<close> of index.js likewise puts the default in place of missing or falsy data and
  keeps truthy data as it is; a read that throws is not caught.
\<close>

theorem getData_default_or_record:
  "getData GetThrows = (json_of_doc default_doc, [Log FetchFailed]) \<and>
   getData GetNotJson = (json_of_doc default_doc, [Log FetchFailed]) \<and>
   (record_of j = None \<longrightarrow> fst (getData (GetJson j)) = json_of_doc default_doc) \<and>
   (record_of j = Some r \<and> \<not> truthy r \<longrightarrow>
      fst (getData (GetJson j)) = json_of_doc default_doc) \<and>
   (record_of j = Some r \<and> truthy r \<longrightarrow> getData (GetJson j) = (r, [])) \<and>
   as_doc (json_of_doc default_doc) = Some \<lparr>weekday = [], weekend = []\<rparr> \<and>
   initDB ReadThrows wok = (None, [Read], Thrown) \<and>
   fst (initDB ReadNull wok) = Some (json_of_doc default_doc) \<and>
   (\<not> truthy d \<longrightarrow> fst (initDB (ReadJson d) wok) = Some (json_of_doc default_doc)) \<and>
   (truthy d \<longrightarrow> fst (initDB (ReadJson d) wok) = Some d)"
proof -
  have n: "record_of JNull = None"
    by (simp add: record_of_def)
  have a: "record_of j = None \<longrightarrow> fst (getData (GetJson j)) = json_of_doc default_doc"
    by (simp add: getData_def)
  have b: "record_of j = Some r \<and> \<not> truthy r \<longrightarrow>
      fst (getData (GetJson j)) = json_of_doc default_doc"
    by (simp add: getData_def)
  have c: "record_of j = Some r \<and> truthy r \<longrightarrow> getData (GetJson j) = (r, [])"
    using n by (auto simp: getData_def)
  have d: "as_doc (json_of_doc default_doc) = Some \<lparr>weekday = [], weekend = []\<rparr>"
    by (simp add: as_doc_json_of_doc default_doc_def)
  show ?thesis
    using a b c d by (simp add: getData_def initDB_def Let_def)
qed

theorem getData_default_or_record_witness:
  "record_of (JObj [(''message'', JStr ''Bin not found'')]) = None \<and>
   fst (getData (GetJson (JObj [(''message'', JStr ''Bin not found'')]))) =
     json_of_doc default_doc \<and>
   record_of (JObj [(''record'', JNull)]) = Some JNull \<and> \<not> truthy JNull \<and>
   fst (getData (GetJson (JObj [(''record'', JNull)]))) = json_of_doc default_doc \<and>
   record_of (JObj [(''record'', json_of_doc \<lparr>weekday = [''a''], weekend = []\<rparr>)]) =
     Some (json_of_doc \<lparr>weekday = [''a''], weekend = []\<rparr>) \<and>
   truthy (json_of_doc \<lparr>weekday = [''a''], weekend = []\<rparr>) \<and>
   getData (GetJson (JObj [(''record'', json_of_doc \<lparr>weekday = [''a''], weekend = []\<rparr>)])) =
     (json_of_doc \<lparr>weekday = [''a''], weekend = []\<rparr>, []) \<and>
   fst (initDB (ReadJson JNull) True) = Some (json_of_doc default_doc)"
proof -
  have h1: "record_of (JObj [(''message'', JStr ''Bin not found'')]) = None"
    by (simp add: record_of_def)
  have h2: "record_of (JObj [(''record'', JNull)]) = Some JNull \<and> \<not> truthy JNull"
    by (simp add: record_of_def truthy_def)
  have h3: "record_of (JObj [(''record'', json_of_doc \<lparr>weekday = [''a''], weekend = []\<rparr>)]) =
     Some (json_of_doc \<lparr>weekday = [''a''], weekend = []\<rparr>) \<and>
     truthy (json_of_doc \<lparr>weekday = [''a''], weekend = []\<rparr>)"
    by (simp add: record_of_def truthy_json_of_doc)
  have h4: "\<not> truthy JNull"
    by (simp add: truthy_def)
  show ?thesis
    using h1 h2 h3 h4
      getData_default_or_record [of "JObj [(''message'', JStr ''Bin not found'')]" JNull
        True JNull]
      getData_default_or_record [of "JObj [(''record'', JNull)]" JNull True JNull]
      getData_default_or_record [of
        "JObj [(''record'', json_of_doc \<lparr>weekday = [''a''], weekend = []\<rparr>)]"
        "json_of_doc \<lparr>weekday = [''a''], weekend = []\<rparr>" True JNull]
    by simp
qed

text \<open>
  The claim as stated fails on a stored document that is malformed but truthy: a record
  with the weekend list missing is returned as it is, not replaced by the default, and a
  field is absent from what \<open>getData\<close> returns. \<open>initDB\<close> keeps such data as well, and a
  read that throws leaves it with an exception.
\<close>

theorem getData_malformed_counterexample:
  "as_doc (JObj [(''weekday'', JArr [JStr ''a''])]) = None \<and>
   getData (GetJson (JObj [(''record'', JObj [(''weekday'', JArr [JStr ''a''])])])) =
     (JObj [(''weekday'', JArr [JStr ''a''])], []) \<and>
   JObj [(''weekday'', JArr [JStr ''a''])] \<noteq> json_of_doc default_doc \<and>
   initDB (ReadJson (JObj [(''weekday'', JArr [JStr ''a''])])) True =
     (Some (JObj [(''weekday'', JArr [JStr ''a''])]),
      [Read, Write (JObj [(''weekday'', JArr [JStr ''a''])])], Returned) \<and>
   initDB ReadThrows True = (None, [Read], Thrown)"
  by (simp add: as_doc_def getData_def record_of_def truthy_def json_of_doc_def initDB_def
      default_doc_def Let_def)

section \<open>The daily digest\<close>

text \<open>
  Claim C8, as amended. For every weekday name the digest takes the weekend list exactly
  when the name is Saturday or Sunday, and the weekday list otherwise, in both variants.
  In part_000, the route and the cron job send a message of their own that there are no
  tasks when the list taken is empty, and the greeting with the rendered list otherwise.
  In index.js the route always sends the header followed by the rendered list, which for
  an empty list is the placeholder line. No digest stores anything.
\<close>

theorem digest_selection:
  assumes g: "as_doc (fst (getData g)) = Some db"
    and lt: "lt = (if day = ''Saturday'' \<or> day = ''Sunday'' then ''weekend'' else ''weekday'')"
    and env: "read_ok env"
  shows "getListTypeByDay day = lt \<and> istDayType day = lt \<and>
         map_option (sent \<circ> fst) (daily_route day g) =
           Some [if get_list lt db = [] then no_tasks_text lt
                 else morning_text lt (get_list lt db)] \<and>
         map_option sent (daily_cron day g) =
           Some [if get_list lt db = [] then no_tasks_text_cron lt
                 else morning_text lt (get_list lt db)] \<and>
         sent (fst (daily_route_lowdb day db env)) =
           [header_lowdb lt @ prettyList (get_list lt db)] \<and>
         prettyList [] = ''_(empty)_'' \<and>
         map_option (stored \<circ> fst) (daily_route day g) = Some [] \<and>
         map_option stored (daily_cron day g) = Some [] \<and>
         stored (fst (daily_route_lowdb day db env)) = []"
proof -
  obtain j lg where gj: "getData g = (j, lg)"
    by (cases "getData g")
  have aj: "as_doc j = Some db"
    using g gj by simp
  have "lg = snd (getData g)"
    using gj by simp
  then have "lg = [] \<or> lg = [Log FetchFailed]"
    by (auto simp: getData_def split: get_outcome.splits option.splits)
  then have sl: "sent (Get # lg @ [Send m]) = [m]" "stored (Get # lg @ [Send m]) = []" for m
    by (auto simp: sent_def stored_def)
  have a: "getListTypeByDay day = lt" "istDayType day = lt"
    by (simp_all add: getListTypeByDay_def istDayType_def lt)
  have b: "map_option (sent \<circ> fst) (daily_route day g) =
           Some [if get_list lt db = [] then no_tasks_text lt
                 else morning_text lt (get_list lt db)]"
    by (simp add: daily_route_def gj aj a Let_def sendTelegram_def sl)
  have c: "map_option sent (daily_cron day g) =
           Some [if get_list lt db = [] then no_tasks_text_cron lt
                 else morning_text lt (get_list lt db)]"
    by (simp add: daily_cron_def gj aj a Let_def sendTelegram_def sl)
  have d: "map_option (stored \<circ> fst) (daily_route day g) = Some []"
    by (simp add: daily_route_def gj aj a Let_def sendTelegram_def sl)
  have e: "map_option stored (daily_cron day g) = Some []"
    by (simp add: daily_cron_def gj aj a Let_def sendTelegram_def sl)
  have f: "sent (fst (daily_route_lowdb day db env)) =
           [header_lowdb lt @ prettyList (get_list lt db)]"
    "stored (fst (daily_route_lowdb day db env)) = []"
    using env by (simp_all add: daily_route_lowdb_def a Let_def sendTelegram_def sent_def
        stored_def)
  show ?thesis
    using a b c d e f by (simp add: prettyList_def)
qed

theorem digest_selection_witness:
  "as_doc (fst (getData GetThrows)) = Some \<lparr>weekday = [], weekend = []\<rparr> \<and>
   getListTypeByDay ''Sunday'' = ''weekend'' \<and>
   istDayType ''Sunday'' = ''weekend'' \<and>
   map_option (sent \<circ> fst) (daily_route ''Sunday'' GetThrows) =
     Some [no_tasks_text ''weekend''] \<and>
   map_option sent (daily_cron ''Sunday'' GetThrows) = Some [no_tasks_text_cron ''weekend''] \<and>
   sent (fst (daily_route_lowdb ''Sunday'' \<lparr>weekday = [], weekend = []\<rparr>
     \<lparr>read_ok = True, write_ok = True\<rparr>)) = [header_lowdb ''weekend'' @ ''_(empty)_'']"
proof -
  have h1: "as_doc (fst (getData GetThrows)) = Some \<lparr>weekday = [], weekend = []\<rparr>"
    by (simp add: getData_def as_doc_json_of_doc default_doc_def)
  have h2: "''weekend'' =
    (if ''Sunday'' = ''Saturday'' \<or> ''Sunday'' = ''Sunday'' then ''weekend'' else ''weekday'')"
    by simp
  have h3: "read_ok \<lparr>read_ok = True, write_ok = True\<rparr>"
    by simp
  have e: "get_list ''weekend'' \<lparr>weekday = [], weekend = []\<rparr> = []"
    by (simp add: get_list_def)
  show ?thesis
    using h1 digest_selection [OF h1 h2 h3]
    by (simp add: e)
qed

text \<open>
  The claim as stated fails on index.js: for an empty list its route sends the same
  message as for any other list, the header followed by the rendered list, which is then
  the placeholder line.
\<close>

theorem digest_lowdb_empty_counterexample:
  "get_list (istDayType ''Monday'') \<lparr>weekday = [], weekend = [''a'']\<rparr> = [] \<and>
   daily_route_lowdb ''Monday'' \<lparr>weekday = [], weekend = [''a'']\<rparr>
       \<lparr>read_ok = True, write_ok = True\<rparr> =
     ([Read, Send (header_lowdb ''weekday'' @ prettyList [])],
      Some (''Sent today'' @ [CHR 0x27] @ ''s to-do list.'')) \<and>
   header_lowdb ''weekday'' @ prettyList [] =
     calendar @ '' *Good morning!* Here is your *weekday* list for today:'' @ nl @ nl @
     ''_(empty)_''"
  by (simp add: istDayType_def get_list_def daily_route_lowdb_def Let_def sendTelegram_def
      header_lowdb_def prettyList_def)

section \<open>Saving the document\<close>

text \<open>
  Claim C6. \<open>saveData\<close> of part_000 returns whatever the PUT comes to: a request that
  throws or is answered not ok only writes a console line. So for every command line the
  messages that \<open>handleCommand\<close> sends, and the document it PUTs, are the same whether
  the write succeeds or fails; in particular a valid \<open>/add\<close>, \<open>/edit\<close> or \<open>/remove\<close> is
  confirmed to the user as if the write had succeeded.
\<close>

theorem save_failure_not_reported:
  "map_option sent (handleCommand CHAT_ID t fromId g p) =
     map_option sent (handleCommand CHAT_ID t fromId g PutOk) \<and>
   map_option stored (handleCommand CHAT_ID t fromId g p) =
     map_option stored (handleCommand CHAT_ID t fromId g PutOk) \<and>
   sent (saveData d p) = [] \<and>
   logged (saveData d p) =
     [case p of PutThrows \<Rightarrow> SaveFailed | PutNotOk None \<Rightarrow> SaveFailed
      | PutNotOk (Some e) \<Rightarrow> SaveRejected e | PutOk \<Rightarrow> SaveOk]"
proof -
  have s: "map_option sent (map_option (\<lambda>es. Get # lg @ es) x) =
           map_option (\<lambda>es. sent lg @ es) (map_option sent x)" for lg x
    by (cases x) (simp_all add: sent_simps)
  have w: "map_option stored (map_option (\<lambda>es. Get # lg @ es) x) =
           map_option (\<lambda>es. stored lg @ es) (map_option stored x)" for lg x
    by (cases x) (simp_all add: stored_simps)
  have a: "map_option sent (handleCommand CHAT_ID t fromId g p) =
     map_option sent (handleCommand CHAT_ID t fromId g PutOk)"
    unfolding handleCommand_def
    by (simp add: s switch_cmd_sent_stored [of t _ p PutOk] split: prod.split option.split)
  have b: "map_option stored (handleCommand CHAT_ID t fromId g p) =
     map_option stored (handleCommand CHAT_ID t fromId g PutOk)"
    unfolding handleCommand_def
    by (simp add: w switch_cmd_sent_stored [of t _ p PutOk] split: prod.split option.split)
  show ?thesis
    using a b by (simp add: sent_saveData logged_saveData)
qed

theorem save_failure_not_reported_witness:
  "map_option sent (handleCommand ''42'' ''/add weekday Buy milk'' 42
       (GetJson (JObj [(''record'', json_of_doc \<lparr>weekday = [], weekend = []\<rparr>)])) PutThrows) =
     Some [added_text ''weekday'' ''Buy milk''] \<and>
   map_option stored (handleCommand ''42'' ''/add weekday Buy milk'' 42
       (GetJson (JObj [(''record'', json_of_doc \<lparr>weekday = [], weekend = []\<rparr>)])) PutThrows) =
     Some [json_of_doc \<lparr>weekday = [''Buy milk''], weekend = []\<rparr>] \<and>
   logged (saveData \<lparr>weekday = [''Buy milk''], weekend = []\<rparr> PutThrows) = [SaveFailed]"
proof -
  let ?g = "GetJson (JObj [(''record'', json_of_doc \<lparr>weekday = [], weekend = []\<rparr>)])"
  have ok: "handleCommand ''42'' ''/add weekday Buy milk'' 42 ?g PutOk =
      Some [Get, Put (json_of_doc \<lparr>weekday = [''Buy milk''], weekend = []\<rparr>), Log SaveOk,
            Send (added_text ''weekday'' ''Buy milk'')]"
    by code_simp
  show ?thesis
    using save_failure_not_reported [of "''42''" "''/add weekday Buy milk''" 42 ?g PutThrows
        "\<lparr>weekday = [''Buy milk''], weekend = []\<rparr>"]
    by (simp add: ok sent_simps stored_simps)
qed

section \<open>Parsing the command line\<close>

text \<open>
  Claim C9, as amended. The command line is trimmed and cut at every single space
  character: the parts hold no space, joining them by single spaces gives the trimmed
  line back, two adjacent spaces enclose an empty part and other white space does not
  separate parts. The first part selects the operation through its lower-casing alone, and
  the remaining parts are the arguments: two lines whose first parts differ only in case
  and whose remaining parts agree are handled alike, in both variants. The text of a task
  is the remaining parts joined by single spaces, trimmed.
\<close>

theorem parts_cut_at_spaces:
  "join '' '' (parts_of t) = trim t \<and>
   parts_of t \<noteq> [] \<and>
   (\<forall>part \<in> set (parts_of t). CHR '' '' \<notin> set part) \<and>
   (parts_of t = c # args \<and> parts_of t' = c' # args \<and> toLowerCase c = toLowerCase c' \<longrightarrow>
      switch_cmd t db p = switch_cmd t' db p \<and>
      handleCommand_lowdb t fromId db env = handleCommand_lowdb t' fromId db env) \<and>
   rest_text k (parts_of t) = trim (join '' '' (drop k (parts_of t)))"
proof -
  have d: "parts_of t = c # args \<and> parts_of t' = c' # args \<and>
      toLowerCase c = toLowerCase c' \<longrightarrow>
      switch_cmd t db p = switch_cmd t' db p \<and>
      handleCommand_lowdb t fromId db env = handleCommand_lowdb t' fromId db env"
    using switch_cmd_parts by blast
  have j: "join '' '' (parts_of t) = trim t"
    by (simp add: parts_of_def join_split)
  have n: "parts_of t \<noteq> []"
    by (simp add: parts_of_def split_not_Nil)
  have s: "\<forall>part \<in> set (parts_of t). CHR '' '' \<notin> set part"
    by (auto simp: parts_of_def dest: split_no_separator)
  show ?thesis
    using d j n s by (simp add: rest_text_def)
qed

theorem parts_cut_at_spaces_witness:
  "parts_of ''  /ADD weekday Buy  milk '' = [''/ADD'', ''weekday'', ''Buy'', '''', ''milk''] \<and>
   parts_of ''/add weekday Buy  milk'' = [''/add'', ''weekday'', ''Buy'', '''', ''milk''] \<and>
   toLowerCase ''/ADD'' = toLowerCase ''/add'' \<and>
   join '' '' (parts_of ''  /ADD weekday Buy  milk '') = ''/ADD weekday Buy  milk'' \<and>
   switch_cmd ''  /ADD weekday Buy  milk '' \<lparr>weekday = [], weekend = []\<rparr> PutOk =
     Some [Put (json_of_doc \<lparr>weekday = [''Buy  milk''], weekend = []\<rparr>), Log SaveOk,
           Send (added_text ''weekday'' ''Buy  milk'')]"
proof -
  let ?t = "''  /ADD weekday Buy  milk ''"
  let ?u = "''/add weekday Buy  milk''"
  let ?db = "\<lparr>weekday = [], weekend = []\<rparr>"
  have h1: "parts_of ?t = [''/ADD'', ''weekday'', ''Buy'', '''', ''milk'']"
    by code_simp
  have h2: "parts_of ?u = [''/add'', ''weekday'', ''Buy'', '''', ''milk'']"
    by code_simp
  have h3: "toLowerCase ''/ADD'' = toLowerCase ''/add''"
    by code_simp
  have h4: "trim ?t = ''/ADD weekday Buy  milk''"
    by code_simp
  have h5: "switch_cmd ?u ?db PutOk =
     Some [Put (json_of_doc \<lparr>weekday = [''Buy  milk''], weekend = []\<rparr>), Log SaveOk,
           Send (added_text ''weekday'' ''Buy  milk'')]"
    by code_simp
  note inst = parts_cut_at_spaces [of ?t "''/ADD''" "[''weekday'', ''Buy'', '''', ''milk'']" ?u
      "''/add''" ?db PutOk 42 "\<lparr>read_ok = True, write_ok = True\<rparr>" 2]
  from inst have j: "join '' '' (parts_of ?t) = trim ?t"
    by (elim conjE)
  from inst h1 h2 h3 have s: "switch_cmd ?t ?db PutOk = switch_cmd ?u ?db PutOk"
    by (elim conjE) simp
  from h1 h2 h3 j s show ?thesis
    unfolding h4 h5 by (intro conjI)
qed

text \<open>
  The claim as stated fails where the line holds white space other than single spaces
  between its parts. With two spaces after the command the second part is the empty
  string, not the list name, and \<open>/view\<close> answers with its usage line; with a tab in place
  of the space the line is a single part and no command at all. A split on whitespace
  gives the command and the list name on both lines.
\<close>

theorem parts_double_space_counterexample:
  "parts_of ''/view  weekday'' = [''/view'', '''', ''weekday''] \<and>
   spec_tokens ''/view  weekday'' = [''/view'', ''weekday''] \<and>
   switch_cmd ''/view  weekday'' \<lparr>weekday = [''a''], weekend = []\<rparr> PutOk =
     Some [Send usage_view] \<and>
   handleCommand_lowdb ''/view  weekday'' 42 \<lparr>weekday = [''a''], weekend = []\<rparr>
       \<lparr>read_ok = True, write_ok = True\<rparr> = Some ([Send usage_view], Returned) \<and>
   switch_cmd ''/view weekday'' \<lparr>weekday = [''a''], weekend = []\<rparr> PutOk =
     Some [Send (view_text ''weekday'' [''a''])] \<and>
   parts_of (''/view'' @ [CHR 0x09] @ ''weekday'') = [''/view'' @ [CHR 0x09] @ ''weekday''] \<and>
   spec_tokens (''/view'' @ [CHR 0x09] @ ''weekday'') = [''/view'', ''weekday''] \<and>
   switch_cmd (''/view'' @ [CHR 0x09] @ ''weekday'') \<lparr>weekday = [''a''], weekend = []\<rparr> PutOk =
     Some [Send unknown_command]"
  by code_simp

section \<open>The invariant of the stored tasks\<close>

text \<open>
  Claim C10. Starting from the default document, whatever commands are handled, by
  whatever sender and with whatever outcome of the reads and writes, the store holds a
  task document of which every element, in both lists, is a string that is not empty once
  trimmed: \<open>/add\<close> and \<open>/edit\<close> only write a trimmed text that is not empty, and \<open>/remove\<close>
  writes none. In particular no element is the empty string, which the existence test of
  \<open>/edit\<close> would take for a missing one. This holds of the JSONBin record of part_000 and of
  the lowdb file of index.js.
\<close>

theorem stored_tasks_not_empty:
  "(reachable_bin CHAT_ID bin \<longrightarrow> (\<exists>d. bin = json_of_doc d \<and> doc_ok d)) \<and>
   (reachable_file file \<longrightarrow> (\<exists>d. file = json_of_doc d \<and> doc_ok d)) \<and>
   (doc_ok d \<longrightarrow>
      (\<forall>x \<in> set (weekday d) \<union> set (weekend d). trim x \<noteq> [] \<and> x \<noteq> []))"
proof -
  have "doc_ok d \<longrightarrow> (\<forall>x \<in> set (weekday d) \<union> set (weekend d). trim x \<noteq> [] \<and> x \<noteq> [])"
    using trim_Nil by (auto simp: doc_ok_def)
  then show ?thesis
    using reachable_bin_ok reachable_file_ok by blast
qed

theorem stored_tasks_not_empty_witness:
  "reachable_bin ''42'' (json_of_doc \<lparr>weekday = [''Buy milk''], weekend = []\<rparr>) \<and>
   reachable_file (json_of_doc \<lparr>weekday = [''Buy milk''], weekend = []\<rparr>) \<and>
   doc_ok \<lparr>weekday = [''Buy milk''], weekend = []\<rparr> \<and>
   trim ''Buy milk'' \<noteq> []"
proof -
  let ?d = "\<lparr>weekday = [''Buy milk''], weekend = []\<rparr>"
  let ?r = "\<lparr>req_text = ''/add weekday  Buy milk '', req_from = 42, req_get = Down,
             req_put = PutOk\<rparr>"
  let ?l = "\<lparr>lreq_text = ''/add weekday  Buy milk '', lreq_from = 42,
             lreq_env = \<lparr>read_ok = True, write_ok = True\<rparr>\<rparr>"
  have s1: "step_bin ''42'' (json_of_doc default_doc) ?r = json_of_doc ?d"
    by code_simp
  have s2: "step_file (json_of_doc default_doc) ?l = json_of_doc ?d"
    by code_simp
  have r1: "reachable_bin ''42'' (json_of_doc ?d)"
    using bin_step [OF bin_init, of "''42''" ?r] by (simp only: s1)
  have r2: "reachable_file (json_of_doc ?d)"
    using file_step [OF file_init, of ?l] by (simp only: s2)
  note inst = stored_tasks_not_empty [of "''42''" "json_of_doc ?d" "json_of_doc ?d" ?d]
  from inst r1 obtain d where "json_of_doc ?d = json_of_doc d" and "doc_ok d"
    by blast
  then have ok: "doc_ok ?d"
    using json_of_doc_inject by blast
  with inst have "trim ''Buy milk'' \<noteq> []"
    by simp
  with r1 r2 ok show ?thesis
    by (intro conjI)
qed

end
